theory Spec2Isabelle
  imports Complex_Main "HOL-Library.Multiset" "HOL-Library.Log_Nat"
begin

section \<open>Multi-phone control: geometry resolution, coordinate mapping, dispatch\<close>

text \<open>
  A shallow embedding of \<^verbatim>\<open>phone_controller.py\<close> and
  \<^verbatim>\<open>screen_mirror_controller.py\<close>.

  Conventions of the model:
  \<^item> Python \<^verbatim>\<open>int\<close> is \<^typ>\<open>int\<close>. A Python \<^verbatim>\<open>float\<close> is the rational number that
    the IEEE binary64 value denotes; every float operation of the source is the exact
    operation followed by rounding to the nearest binary64 value, ties to even, with
    gradual underflow. Results of magnitude \<open>2^1024\<close> and above, where the interpreter
    raises \<^verbatim>\<open>OverflowError\<close> or computes an infinity, are outside the model: sizes and
    coordinates are pixel counts. \<^verbatim>\<open>int(f)\<close> truncates towards zero.
  \<^item> A string is a list of 8-bit characters read as the code points 0..255.
  \<^item> Every \<^verbatim>\<open>subprocess.run(['adb', '-s', dev, 'shell', cmd])\<close> is a call of the
    device bridge. The bridge is a parameter: it maps the sequence number of the call,
    the device and the command to the outcome of the call. The list of calls made so far
    is threaded through as state.
  \<^item> An exception that leaves a function is the \<open>Inl\<close> branch of its result.
\<close>

subsection \<open>Floating-point arithmetic\<close>

type_synonym double = rat

definition pow2 :: "int \<Rightarrow> rat" where
  "pow2 e = (if 0 \<le> e then 2 ^ nat e else 1 / 2 ^ nat (- e))"

definition round_half_even :: "rat \<Rightarrow> int" where
  \<comment> \<open>the nearest integer, the even one of the two at a tie\<close>
  "round_half_even q =
     (let f = \<lfloor>q\<rfloor>; d = q - of_int f
      in if d < 1 / 2 then f else if 1 / 2 < d then f + 1 else if even f then f else f + 1)"

definition exponent :: "rat \<Rightarrow> int" where
  \<comment> \<open>for \<open>r \<noteq> 0\<close>, the integer \<open>e\<close> with \<open>2^e \<le> |r| < 2^(e + 1)\<close>\<close>
  "exponent r =
     (case quotient_of \<bar>r\<bar> of (p, q) \<Rightarrow>
        (let d = bitlen p - bitlen q in if pow2 d \<le> \<bar>r\<bar> then d else d - 1))"

definition to_double :: "rat \<Rightarrow> double" where
  \<comment> \<open>rounding to binary64: 53 significant bits, least exponent \<open>-1022\<close>\<close>
  "to_double r =
     (if r = 0 then 0
      else (let e = max (exponent r) (- 1022); ulp = pow2 (e - 52)
            in of_int (round_half_even (r / ulp)) * ulp))"

definition to_float :: "int \<Rightarrow> double" where
  \<comment> \<open>the conversion of an \<^verbatim>\<open>int\<close> operand of a float operation\<close>
  "to_float i = to_double (of_int i)"

definition true_div :: "int \<Rightarrow> int \<Rightarrow> double" where
  \<comment> \<open>\<^verbatim>\<open>a / b\<close> on two \<^verbatim>\<open>int\<close>s with \<open>b \<noteq> 0\<close>: the correctly rounded quotient\<close>
  "true_div a b = to_double (of_int a / of_int b)"

definition fmul :: "double \<Rightarrow> double \<Rightarrow> double" where
  "fmul a b = to_double (a * b)"

definition fdiv :: "double \<Rightarrow> double \<Rightarrow> double" where
  \<comment> \<open>\<^verbatim>\<open>a / b\<close> on floats with \<open>b \<noteq> 0\<close>\<close>
  "fdiv a b = to_double (a / b)"

definition fsub :: "double \<Rightarrow> double \<Rightarrow> double" where
  "fsub a b = to_double (a - b)"

definition py_int :: "double \<Rightarrow> int" where
  \<comment> \<open>\<^verbatim>\<open>int(f)\<close>: truncation towards zero\<close>
  "py_int r = (if r < 0 then - \<lfloor>- r\<rfloor> else \<lfloor>r\<rfloor>)"

subsection \<open>The device bridge\<close>

datatype shell_cmd =
    InputTap int int                    \<comment> \<open>\<^verbatim>\<open>f'input tap {x} {y}'\<close>\<close>
  | InputSwipe int int int int int      \<comment> \<open>\<^verbatim>\<open>f'input swipe {x1} {y1} {x2} {y2} {duration}'\<close>\<close>
  | InputKeyevent string                \<comment> \<open>\<^verbatim>\<open>f'input keyevent {keycode}'\<close>\<close>
  | InputText string                    \<comment> \<open>\<^verbatim>\<open>f'input text "{text}"'\<close>\<close>
  | WmSize                              \<comment> \<open>\<^verbatim>\<open>wm size\<close>\<close>
  | DumpsysWindowDisplays               \<comment> \<open>\<^verbatim>\<open>dumpsys window displays\<close>\<close>
  | Shell string                        \<comment> \<open>any other command string\<close>

datatype run_outcome =
    Completed int string string         \<comment> \<open>returncode, stdout, stderr\<close>
  | TimeoutExpired
  | OtherException string

type_synonym call = "string \<times> shell_cmd"

type_synonym bridge = "nat \<Rightarrow> string \<Rightarrow> shell_cmd \<Rightarrow> run_outcome"

datatype py_error = IndexError | UnboundLocalError

definition run :: "bridge \<Rightarrow> call list \<Rightarrow> string \<Rightarrow> shell_cmd \<Rightarrow> run_outcome \<times> call list" where
  "run br sent dev cmd = (br (length sent) dev cmd, sent @ [(dev, cmd)])"

subsection \<open>The regular expressions of the geometry parsers\<close>

definition is_digit :: "char \<Rightarrow> bool" where
  "is_digit c = (c \<in> set ''0123456789'')"

definition is_space :: "char \<Rightarrow> bool" where
  \<comment> \<open>\<^verbatim>\<open>\s\<close> and \<^verbatim>\<open>str.isspace\<close> on the code points below 256\<close>
  "is_space c = ((of_char c :: nat) \<in> {9, 10, 11, 12, 13, 28, 29, 30, 31, 32, 133, 160})"

definition lower :: "char \<Rightarrow> char" where
  "lower c = (case map_of (zip ''ABCDEFGHIJKLMNOPQRSTUVWXYZ'' ''abcdefghijklmnopqrstuvwxyz'') c of
                None \<Rightarrow> c | Some l \<Rightarrow> l)"

definition digit_val :: "char \<Rightarrow> int" where
  "digit_val c = int (of_char c) - 48"

definition int_of_digits :: "string \<Rightarrow> int" where
  \<comment> \<open>\<^verbatim>\<open>int(s)\<close> on a non-empty string of decimal digits\<close>
  "int_of_digits ds = foldl (\<lambda>a c. 10 * a + digit_val c) 0 ds"

definition strip :: "string \<Rightarrow> string" where
  "strip s = rev (dropWhile is_space (rev (dropWhile is_space s)))"

fun match_lit :: "bool \<Rightarrow> string \<Rightarrow> string \<Rightarrow> string option" where
  \<comment> \<open>a literal at the head of the input, ignoring case when the flag is set; the rest\<close>
  "match_lit ic [] s = Some s"
| "match_lit ic (p # ps) [] = None"
| "match_lit ic (p # ps) (c # cs) =
     (if (if ic then lower p = lower c else p = c) then match_lit ic ps cs else None)"

definition match_digits :: "string \<Rightarrow> (int \<times> string) option" where
  \<comment> \<open>\<^verbatim>\<open>(\d+)\<close> at the head of the input: the value of the group and the rest\<close>
  "match_digits s =
     (let ds = takeWhile is_digit s
      in if ds = [] then None else Some (int_of_digits ds, dropWhile is_digit s))"

definition match_wxh :: "string \<Rightarrow> (int \<times> int) option" where
  \<comment> \<open>\<^verbatim>\<open>(\d+)\s*x\s*(\d+)\<close> with IGNORECASE at the head of the input\<close>
  "match_wxh s =
     (case match_digits s of
        None \<Rightarrow> None
      | Some (w, r1) \<Rightarrow>
          (case match_lit True ''x'' (dropWhile is_space r1) of
             None \<Rightarrow> None
           | Some r2 \<Rightarrow>
               (case match_digits (dropWhile is_space r2) of
                  None \<Rightarrow> None
                | Some (h, r3) \<Rightarrow> Some (w, h))))"

definition match_labelled :: "string \<Rightarrow> string \<Rightarrow> (int \<times> int) option" where
  \<comment> \<open>\<^verbatim>\<open>LABEL\s*(\d+)\s*x\s*(\d+)\<close> with IGNORECASE at the head of the input\<close>
  "match_labelled lbl s =
     (case match_lit True lbl s of
        None \<Rightarrow> None
      | Some r \<Rightarrow> match_wxh (dropWhile is_space r))"

definition match_field :: "string \<Rightarrow> string \<Rightarrow> int list option" where
  \<comment> \<open>\<^verbatim>\<open>NAME=(\d+)\<close>, case-sensitive, at the head of the input: the list of
      its groups, which has one element\<close>
  "match_field name s =
     (case match_lit False name s of
        None \<Rightarrow> None
      | Some r \<Rightarrow> map_option (\<lambda>(v, rest). [v]) (match_digits r))"

definition group :: "int list \<Rightarrow> nat \<Rightarrow> py_error + int" where
  \<comment> \<open>\<^verbatim>\<open>int(m.group(n))\<close> for \<open>n \<ge> 1\<close>: a group the pattern does not have raises
      \<^verbatim>\<open>IndexError: no such group\<close>\<close>
  "group gs n = (if 1 \<le> n \<and> n \<le> length gs then Inr (gs ! (n - 1)) else Inl IndexError)"

fun re_search :: "(string \<Rightarrow> 'a option) \<Rightarrow> string \<Rightarrow> 'a option" where
  \<comment> \<open>\<^verbatim>\<open>re.search\<close>: the match at the leftmost position that has one\<close>
  "re_search m [] = m []"
| "re_search m (c # cs) = (case m (c # cs) of Some r \<Rightarrow> Some r | None \<Rightarrow> re_search m cs)"

definition override_match :: "string \<Rightarrow> (int \<times> int) option" where
  "override_match output = re_search (match_labelled ''Override size:'') output"

definition physical_match :: "string \<Rightarrow> (int \<times> int) option" where
  "physical_match output = re_search (match_labelled ''Physical size:'') output"

definition any_match :: "string \<Rightarrow> (int \<times> int) option" where
  "any_match output = re_search match_wxh output"

definition width_match :: "string \<Rightarrow> int list option" where
  "width_match output = re_search (match_field ''mDisplayWidth='') output"

definition height_match :: "string \<Rightarrow> int list option" where
  "height_match output = re_search (match_field ''mDisplayHeight='') output"

subsection \<open>PhoneController\<close>

record cmd_result =
  device_id :: string
  success :: bool
  cmd_output :: "string option"         \<comment> \<open>the key \<^verbatim>\<open>'output'\<close>, absent on an exception\<close>
  error :: string

definition execute_command :: "bridge \<Rightarrow> call list \<Rightarrow> string \<Rightarrow> shell_cmd \<Rightarrow> cmd_result \<times> call list" where
  "execute_command br sent dev cmd =
     (case run br sent dev cmd of
        (Completed rc out err, sent') \<Rightarrow>
          (\<lparr>device_id = dev, success = (rc = 0), cmd_output = Some out, error = err\<rparr>, sent')
      | (TimeoutExpired, sent') \<Rightarrow>
          (\<lparr>device_id = dev, success = False, cmd_output = None, error = ''Command timeout''\<rparr>, sent')
      | (OtherException e, sent') \<Rightarrow>
          (\<lparr>device_id = dev, success = False, cmd_output = None, error = e\<rparr>, sent'))"

record screen_size =
  width :: int
  height :: int
  is_override :: "bool option"          \<comment> \<open>the key is absent from some of the dicts\<close>

definition zero_size :: screen_size where
  "zero_size = \<lparr>width = 0, height = 0, is_override = None\<rparr>"

definition parse_wm_size :: "string \<Rightarrow> screen_size option" where
  \<comment> \<open>the three searches on the output of \<^verbatim>\<open>wm size\<close>, in the order of the source\<close>
  "parse_wm_size output =
     (case override_match output of
        Some (w, h) \<Rightarrow> Some \<lparr>width = w, height = h, is_override = Some True\<rparr>
      | None \<Rightarrow>
          (case physical_match output of
             Some (w, h) \<Rightarrow> Some \<lparr>width = w, height = h, is_override = Some False\<rparr>
           | None \<Rightarrow>
               (case any_match output of
                  Some (w, h) \<Rightarrow> Some \<lparr>width = w, height = h, is_override = Some False\<rparr>
                | None \<Rightarrow> None)))"

definition parse_dumpsys :: "string \<Rightarrow> py_error + screen_size option" where
  \<comment> \<open>the source reads \<^verbatim>\<open>width_match.group(1)\<close> and \<^verbatim>\<open>height_match.group(2)\<close>\<close>
  "parse_dumpsys output =
     (case (width_match output, height_match output) of
        (Some wm, Some hm) \<Rightarrow>
          (case group wm 1 of
             Inl e \<Rightarrow> Inl e
           | Inr w \<Rightarrow>
               (case group hm 2 of
                  Inl e \<Rightarrow> Inl e
                | Inr h \<Rightarrow> Inr (Some \<lparr>width = w, height = h, is_override = None\<rparr>)))
      | _ \<Rightarrow> Inr None)"

definition get_screen_info :: "bridge \<Rightarrow> call list \<Rightarrow> string \<Rightarrow> (py_error + screen_size) \<times> call list" where
  "get_screen_info br sent dev =
     (let (result, sent1) = execute_command br sent dev WmSize;
          found = (if success result
                   then (case cmd_output result of Some output \<Rightarrow> parse_wm_size (strip output) | None \<Rightarrow> None)
                   else None)
      in case found of
           Some sz \<Rightarrow> (Inr sz, sent1)
         | None \<Rightarrow>
             (let (result2, sent2) = execute_command br sent1 dev DumpsysWindowDisplays
              in case (if success result2 then cmd_output result2 else None) of
                   Some output \<Rightarrow>
                     (case parse_dumpsys output of
                        Inl e \<Rightarrow> (Inl e, sent2)
                      | Inr (Some sz) \<Rightarrow> (Inr sz, sent2)
                      | Inr None \<Rightarrow> (Inr zero_size, sent2))
                 | None \<Rightarrow> (Inr zero_size, sent2)))"

subsection \<open>ScreenMirrorController\<close>

record controller =
  master_device :: string
  slave_devices :: "string list"
  master_screen_size :: "screen_size option"             \<comment> \<open>\<open>None\<close> before the first assignment\<close>
  slave_screen_sizes :: "string \<rightharpoonup> screen_size"
  sent :: "call list"                                    \<comment> \<open>the bridge calls made so far, oldest first\<close>

definition get_master_screen_size :: "bridge \<Rightarrow> controller \<Rightarrow> screen_size \<times> controller" where
  \<comment> \<open>\<^verbatim>\<open>check=True\<close> raises on a nonzero exit status; every exception inside the
      \<^verbatim>\<open>try\<close> ends in the final \<^verbatim>\<open>return {'width': 0, 'height': 0}\<close>\<close>
  "get_master_screen_size br st =
     (case (case master_screen_size st of
              Some c \<Rightarrow> if width c > 0 then Some c else None
            | None \<Rightarrow> None) of
        Some c \<Rightarrow> (c, st)
      | None \<Rightarrow>
          (case run br (sent st) (master_device st) WmSize of
             (Completed rc out err, sent1) \<Rightarrow>
               if rc \<noteq> 0 then (zero_size, st\<lparr>sent := sent1\<rparr>)
               else
                 (case parse_wm_size (strip out) of
                    Some sz \<Rightarrow> (sz, st\<lparr>master_screen_size := Some sz, sent := sent1\<rparr>)
                  | None \<Rightarrow>
                      (case run br sent1 (master_device st) DumpsysWindowDisplays of
                         (Completed rc2 out2 err2, sent2) \<Rightarrow>
                           if rc2 \<noteq> 0 then (zero_size, st\<lparr>sent := sent2\<rparr>)
                           else
                             (case parse_dumpsys out2 of
                                Inl e \<Rightarrow> (zero_size, st\<lparr>sent := sent2\<rparr>)
                              | Inr (Some sz) \<Rightarrow>
                                  (sz, st\<lparr>master_screen_size := Some sz, sent := sent2\<rparr>)
                              | Inr None \<Rightarrow> (zero_size, st\<lparr>sent := sent2\<rparr>))
                       | (exc, sent2) \<Rightarrow> (zero_size, st\<lparr>sent := sent2\<rparr>)))
           | (exc, sent1) \<Rightarrow> (zero_size, st\<lparr>sent := sent1\<rparr>)))"

definition slave_size_of :: "bridge \<Rightarrow> controller \<Rightarrow> string \<Rightarrow> (py_error + screen_size) \<times> controller" where
  \<comment> \<open>the head of the slave loops of \<^verbatim>\<open>mirror_tap\<close> and \<^verbatim>\<open>mirror_swipe\<close>: the cached
      size, or a query whose answer is cached when its width is positive\<close>
  "slave_size_of br st slave =
     (case slave_screen_sizes st slave of
        Some sz \<Rightarrow> (Inr sz, st)
      | None \<Rightarrow>
          (case get_screen_info br (sent st) slave of
             (Inl e, sent1) \<Rightarrow> (Inl e, st\<lparr>sent := sent1\<rparr>)
           | (Inr sz, sent1) \<Rightarrow>
               (Inr sz,
                if width sz > 0
                then st\<lparr>slave_screen_sizes := (slave_screen_sizes st)(slave \<mapsto> sz), sent := sent1\<rparr>
                else st\<lparr>sent := sent1\<rparr>)))"

fun cache_slaves :: "bridge \<Rightarrow> string list \<Rightarrow> controller \<Rightarrow> (py_error + unit) \<times> controller" where
  "cache_slaves br [] st = (Inr (), st)"
| "cache_slaves br (slave # rest) st =
     (case get_screen_info br (sent st) slave of
        (Inl e, sent1) \<Rightarrow> (Inl e, st\<lparr>sent := sent1\<rparr>)
      | (Inr sz, sent1) \<Rightarrow>
          cache_slaves br rest
            (if width sz > 0
             then st\<lparr>slave_screen_sizes := (slave_screen_sizes st)(slave \<mapsto> sz), sent := sent1\<rparr>
             else st\<lparr>sent := sent1\<rparr>))"

definition cache_screen_sizes :: "bridge \<Rightarrow> controller \<Rightarrow> (py_error + unit) \<times> controller" where
  \<comment> \<open>\<^verbatim>\<open>_cache_screen_sizes\<close>\<close>
  "cache_screen_sizes br st =
     (let (master_size, st1) = get_master_screen_size br st;
          st2 = st1\<lparr>master_screen_size := Some master_size\<rparr>
      in cache_slaves br (slave_devices st2) st2)"

definition new_controller :: "bridge \<Rightarrow> string \<Rightarrow> string list \<Rightarrow> (py_error + unit) \<times> controller" where
  \<comment> \<open>\<^verbatim>\<open>ScreenMirrorController.__init__\<close>\<close>
  "new_controller br master slaves =
     cache_screen_sizes br
       \<lparr>master_device = master, slave_devices = slaves, master_screen_size = None,
        slave_screen_sizes = Map.empty, sent = []\<rparr>"

record dispatch_result =
  device :: string
  ok :: bool                                  \<comment> \<open>the key \<^verbatim>\<open>'success'\<close>\<close>
  coords :: "(int \<times> int) option"              \<comment> \<open>the pair printed under \<^verbatim>\<open>'coords'\<close>\<close>
  screen :: "(int \<times> int) option"              \<comment> \<open>the size printed under \<^verbatim>\<open>'screen'\<close>\<close>
  raised :: "run_outcome option"              \<comment> \<open>the exception whose text is under \<^verbatim>\<open>'error'\<close>\<close>

definition result_of :: "string \<Rightarrow> run_outcome \<Rightarrow> ((int \<times> int) \<times> (int \<times> int)) option \<Rightarrow> dispatch_result" where
  \<comment> \<open>the dict appended after one \<^verbatim>\<open>subprocess.run\<close> in a \<^verbatim>\<open>try\<close>/\<^verbatim>\<open>except Exception\<close>\<close>
  "result_of slave oc info =
     (case oc of
        Completed rc out err \<Rightarrow>
          \<lparr>device = slave, ok = (rc = 0), coords = map_option fst info,
           screen = map_option snd info, raised = None\<rparr>
      | exc \<Rightarrow> \<lparr>device = slave, ok = False, coords = None, screen = None, raised = Some exc\<rparr>)"

fun slaves_loop :: "bridge \<Rightarrow> shell_cmd \<Rightarrow> string list \<Rightarrow> call list \<Rightarrow> dispatch_result list
                      \<Rightarrow> dispatch_result list \<times> call list" where
  "slaves_loop br cmd [] sn results = (results, sn)"
| "slaves_loop br cmd (slave # rest) sn results =
     (let (oc, sn1) = run br sn slave cmd
      in slaves_loop br cmd rest sn1 (results @ [result_of slave oc None]))"

definition execute_on_slaves :: "bridge \<Rightarrow> controller \<Rightarrow> shell_cmd \<Rightarrow> dispatch_result list \<times> controller" where
  "execute_on_slaves br st cmd =
     (let (results, sn) = slaves_loop br cmd (slave_devices st) (sent st) []
      in (results, st\<lparr>sent := sn\<rparr>))"

definition clamp :: "int \<Rightarrow> int \<Rightarrow> int" where
  \<comment> \<open>\<^verbatim>\<open>max(0, min(v, bound - 1))\<close>\<close>
  "clamp v bound = max 0 (min v (bound - 1))"

fun tap_slaves :: "bridge \<Rightarrow> int \<Rightarrow> int \<Rightarrow> double \<Rightarrow> double \<Rightarrow> string list \<Rightarrow> controller
                     \<Rightarrow> dispatch_result list \<Rightarrow> (py_error + dispatch_result list) \<times> controller" where
  "tap_slaves br x y ratio_x ratio_y [] st results = (Inr results, st)"
| "tap_slaves br x y ratio_x ratio_y (slave # rest) st results =
     (case slave_size_of br st slave of
        (Inl e, st1) \<Rightarrow> (Inl e, st1)
      | (Inr slave_size, st1) \<Rightarrow>
          if width slave_size > 0 \<and> height slave_size > 0
          then
            (let slave_x = clamp (py_int (fmul (to_float (width slave_size)) ratio_x)) (width slave_size);
                 slave_y = clamp (py_int (fmul (to_float (height slave_size)) ratio_y)) (height slave_size);
                 (oc, sn) = run br (sent st1) slave (InputTap slave_x slave_y)
             in tap_slaves br x y ratio_x ratio_y rest (st1\<lparr>sent := sn\<rparr>)
                  (results @ [result_of slave oc
                     (Some ((slave_x, slave_y), (width slave_size, height slave_size)))]))
          else
            (let (oc, sn) = run br (sent st1) slave (InputTap x y)
             in tap_slaves br x y ratio_x ratio_y rest (st1\<lparr>sent := sn\<rparr>)
                  (results @ [result_of slave oc None])))"

definition mirror_tap :: "bridge \<Rightarrow> controller \<Rightarrow> int \<Rightarrow> int
                            \<Rightarrow> (py_error + dispatch_result list) \<times> controller" where
  \<comment> \<open>The value is the local list \<^verbatim>\<open>results\<close> that the function reports on. With an
      unresolved master size and no slave, \<^verbatim>\<open>results\<close> is read before it is assigned.\<close>
  "mirror_tap br st x y =
     (let (master_size, st1) = get_master_screen_size br st
      in if width master_size = 0 \<or> height master_size = 0
         then
           (let (oc, sn) = run br (sent st1) (master_device st1) (InputTap x y);
                st2 = st1\<lparr>sent := sn\<rparr>
            in if slave_devices st2 \<noteq> []
               then (case execute_on_slaves br st2 (InputTap x y) of
                       (results, st3) \<Rightarrow> (Inr results, st3))
               else (Inl UnboundLocalError, st2))
         else
           (let ratio_x = true_div x (width master_size);
                ratio_y = true_div y (height master_size);
                (oc, sn) = run br (sent st1) (master_device st1) (InputTap x y);
                st2 = st1\<lparr>sent := sn\<rparr>
            in tap_slaves br x y ratio_x ratio_y (slave_devices st2) st2 []))"

fun swipe_slaves :: "bridge \<Rightarrow> int \<times> int \<times> int \<times> int \<Rightarrow> double \<times> double \<times> double \<times> double \<Rightarrow> int
                       \<Rightarrow> string list \<Rightarrow> controller \<Rightarrow> (py_error + unit) \<times> controller" where
  "swipe_slaves br pts ratios duration [] st = (Inr (), st)"
| "swipe_slaves br (x1, y1, x2, y2) (ratio_x1, ratio_y1, ratio_x2, ratio_y2) duration (slave # rest) st =
     (case slave_size_of br st slave of
        (Inl e, st1) \<Rightarrow> (Inl e, st1)
      | (Inr slave_size, st1) \<Rightarrow>
          if width slave_size > 0 \<and> height slave_size > 0
          then
            (let slave_x1 = py_int (fmul (to_float (width slave_size)) ratio_x1);
                 slave_y1 = py_int (fmul (to_float (height slave_size)) ratio_y1);
                 slave_x2 = py_int (fmul (to_float (width slave_size)) ratio_x2);
                 slave_y2 = py_int (fmul (to_float (height slave_size)) ratio_y2);
                 (oc, sn) = run br (sent st1) slave
                              (InputSwipe slave_x1 slave_y1 slave_x2 slave_y2 duration)
             in swipe_slaves br (x1, y1, x2, y2) (ratio_x1, ratio_y1, ratio_x2, ratio_y2) duration
                  rest (st1\<lparr>sent := sn\<rparr>))
          else
            (let (oc, sn) = run br (sent st1) slave (InputSwipe x1 y1 x2 y2 duration)
             in swipe_slaves br (x1, y1, x2, y2) (ratio_x1, ratio_y1, ratio_x2, ratio_y2) duration
                  rest (st1\<lparr>sent := sn\<rparr>)))"

definition mirror_swipe :: "bridge \<Rightarrow> controller \<Rightarrow> int \<Rightarrow> int \<Rightarrow> int \<Rightarrow> int \<Rightarrow> int
                              \<Rightarrow> (py_error + unit) \<times> controller" where
  "mirror_swipe br st x1 y1 x2 y2 duration =
     (let (master_size, st1) = get_master_screen_size br st
      in if width master_size = 0 \<or> height master_size = 0
         then
           (let (oc, sn) = run br (sent st1) (master_device st1) (InputSwipe x1 y1 x2 y2 duration);
                st2 = st1\<lparr>sent := sn\<rparr>
            in if slave_devices st2 \<noteq> []
               then (Inr (), snd (execute_on_slaves br st2 (InputSwipe x1 y1 x2 y2 duration)))
               else (Inr (), st2))
         else
           (let ratio_x1 = true_div x1 (width master_size);
                ratio_y1 = true_div y1 (height master_size);
                ratio_x2 = true_div x2 (width master_size);
                ratio_y2 = true_div y2 (height master_size);
                (oc, sn) = run br (sent st1) (master_device st1) (InputSwipe x1 y1 x2 y2 duration);
                st2 = st1\<lparr>sent := sn\<rparr>
            in swipe_slaves br (x1, y1, x2, y2) (ratio_x1, ratio_y1, ratio_x2, ratio_y2) duration
                 (slave_devices st2) st2))"

definition mirror_key :: "bridge \<Rightarrow> controller \<Rightarrow> string \<Rightarrow> controller" where
  "mirror_key br st keycode =
     (let (oc, sn) = run br (sent st) (master_device st) (InputKeyevent keycode);
          st1 = st\<lparr>sent := sn\<rparr>
      in if slave_devices st1 \<noteq> []
         then snd (execute_on_slaves br st1 (InputKeyevent keycode))
         else st1)"

definition replace_char :: "char \<Rightarrow> string \<Rightarrow> string \<Rightarrow> string" where
  \<comment> \<open>\<^verbatim>\<open>text.replace(c, r)\<close> for a pattern of one character\<close>
  "replace_char c r text = concat (map (\<lambda>d. if d = c then r else [d]) text)"

definition escape_text :: "string \<Rightarrow> string" where
  \<comment> \<open>\<^verbatim>\<open>text.replace(' ', '%s').replace('&', '\\&')\<close>\<close>
  "escape_text text = replace_char CHR ''&'' [CHR 0x5C, CHR ''&''] (replace_char CHR '' '' ''%s'' text)"

definition mirror_text :: "bridge \<Rightarrow> controller \<Rightarrow> string \<Rightarrow> controller" where
  "mirror_text br st text =
     (if slave_devices st = [] then st
      else snd (execute_on_slaves br st (InputText (escape_text text))))"

definition input_text :: "bridge \<Rightarrow> call list \<Rightarrow> string \<Rightarrow> string \<Rightarrow> cmd_result \<times> call list" where
  \<comment> \<open>\<^verbatim>\<open>PhoneController.input_text\<close>\<close>
  "input_text br sn dev text = execute_command br sn dev (InputText (escape_text text))"

subsection \<open>PhoneController.execute_all\<close>

fun execute_each :: "bridge \<Rightarrow> shell_cmd \<Rightarrow> string list \<Rightarrow> call list \<Rightarrow> cmd_result list
                       \<Rightarrow> cmd_result list \<times> call list" where
  "execute_each br command [] sn results = (results, sn)"
| "execute_each br command (dev # rest) sn results =
     (let (r, sn1) = execute_command br sn dev command
      in execute_each br command rest sn1 (results @ [r]))"

definition execute_all :: "bridge \<Rightarrow> call list \<Rightarrow> string list \<Rightarrow> shell_cmd \<Rightarrow> bool \<Rightarrow> nat list
                             \<Rightarrow> cmd_result list \<times> call list" where
  \<comment> \<open>\<open>devices\<close> is \<^verbatim>\<open>self.devices\<close>. In parallel mode one future is submitted per
      device, in list order; \<open>completion\<close> lists the indices of the futures in the order in
      which \<^verbatim>\<open>as_completed\<close> yields them, and the calls are numbered by submission.\<close>
  "execute_all br sn devices command parallel completion =
     (if devices = [] then ([], sn)
      else if parallel
      then (let (futures, sn1) = execute_each br command devices sn []
            in (map (\<lambda>k. futures ! k) completion, sn1))
      else execute_each br command devices sn [])"

subsection \<open>ScrcpyInputMirror: window-to-device mapping and the click handler\<close>

record surface =
  window_rect :: "(int \<times> int \<times> int \<times> int) option"
    \<comment> \<open>\<^verbatim>\<open>GetWindowRect(hwnd)\<close>: left, top, right, bottom; \<open>None\<close> when the call raises\<close>
  client_rect :: "(int \<times> int \<times> int \<times> int) option"
    \<comment> \<open>\<^verbatim>\<open>GetClientRect(hwnd)\<close>\<close>
  client_origin :: "(int \<times> int) option"
    \<comment> \<open>\<^verbatim>\<open>ClientToScreen(hwnd, (0, 0))\<close>\<close>

definition is_point_in_window :: "int \<Rightarrow> int \<Rightarrow> surface option \<Rightarrow> bool" where
  "is_point_in_window x y hwnd =
     (case hwnd of
        None \<Rightarrow> False
      | Some s \<Rightarrow>
          (case window_rect s of
             Some (win_left, win_top, win_right, win_bottom) \<Rightarrow>
               win_left \<le> x \<and> x \<le> win_right \<and> win_top \<le> y \<and> y \<le> win_bottom
           | None \<Rightarrow> False))"

definition scale_to_phone :: "screen_size \<Rightarrow> int \<Rightarrow> int \<Rightarrow> int \<Rightarrow> int \<Rightarrow> (int \<times> int) option" where
  \<comment> \<open>The body of \<^verbatim>\<open>convert_to_phone_coords\<close> from the clamp of the client-relative point
      on; \<open>None\<close> is \<^verbatim>\<open>(None, None)\<close>. In the branch that divides by \<open>phone_aspect\<close> the
      tests before it give \<open>phone_aspect > window_aspect \<ge> 0\<close>.\<close>
  "scale_to_phone screen_size client_width client_height rel_x0 rel_y0 =
     (let rel_x = max 0 (min rel_x0 client_width);
          rel_y = max 0 (min rel_y0 client_height)
      in if client_width > 0 \<and> client_height > 0
         then
           (let window_aspect = (if client_height > 0
                                 then true_div client_width client_height else 0);
                phone_aspect = (if height screen_size > 0
                                then true_div (width screen_size) (height screen_size) else 0);
                scale_x = true_div (width screen_size) client_width;
                scale_y = true_div (height screen_size) client_height
            in if \<bar>fsub window_aspect phone_aspect\<bar> > to_double (1 / 100)
               then
                 (let scale = min scale_x scale_y
                  in if window_aspect > phone_aspect
                     then
                       (let visible_width = py_int (fmul (to_float client_height) phone_aspect);
                            letterbox_x = (client_width - visible_width) div 2
                        in if rel_x < letterbox_x \<or> rel_x > letterbox_x + visible_width
                           then None
                           else
                             (let content_x = rel_x - letterbox_x
                              in Some (clamp (py_int (fmul (to_float content_x) scale)) (width screen_size),
                                       clamp (py_int (fmul (to_float rel_y) scale)) (height screen_size))))
                     else
                       (let visible_height = py_int (fdiv (to_float client_width) phone_aspect);
                            letterbox_y = (client_height - visible_height) div 2
                        in if rel_y < letterbox_y \<or> rel_y > letterbox_y + visible_height
                           then None
                           else
                             (let content_y = rel_y - letterbox_y
                              in Some (clamp (py_int (fmul (to_float rel_x) scale)) (width screen_size),
                                       clamp (py_int (fmul (to_float content_y) scale)) (height screen_size)))))
               else Some (clamp (py_int (fmul (to_float rel_x) scale_x)) (width screen_size),
                          clamp (py_int (fmul (to_float rel_y) scale_y)) (height screen_size)))
         else None)"

definition fallback_scale :: "screen_size \<Rightarrow> int \<times> int \<times> int \<times> int \<Rightarrow> int \<Rightarrow> int \<Rightarrow> (int \<times> int) option" where
  \<comment> \<open>the \<^verbatim>\<open>except\<close> branch: simple scaling by the window size\<close>
  "fallback_scale screen_size rect window_x window_y =
     (case rect of (win_left, win_top, win_right, win_bottom) \<Rightarrow>
        (let rel_x = window_x - win_left;
             rel_y = window_y - win_top;
             win_width = win_right - win_left;
             win_height = win_bottom - win_top
         in if win_width > 0 \<and> win_height > 0
            then
              (let scale_x = true_div (width screen_size) win_width;
                   scale_y = true_div (height screen_size) win_height;
                   phone_x = py_int (fmul (to_float rel_x) scale_x);
                   phone_y = py_int (fmul (to_float rel_y) scale_y)
               in Some (max 0 (min phone_x (width screen_size)),
                        max 0 (min phone_y (height screen_size))))
            else None))"

definition convert_to_phone_coords :: "bridge \<Rightarrow> controller \<Rightarrow> int \<Rightarrow> int \<Rightarrow> surface
                                         \<Rightarrow> (int \<times> int) option \<times> controller" where
  "convert_to_phone_coords br st window_x window_y hwnd =
     (let (screen_size, st1) = get_master_screen_size br st
      in if width screen_size = 0 \<or> height screen_size = 0 then (None, st1)
         else
           (case window_rect hwnd of
              None \<Rightarrow> (None, st1)
            | Some (win_left, win_top, win_right, win_bottom) \<Rightarrow>
                (case client_rect hwnd of
                   None \<Rightarrow>
                     (fallback_scale screen_size (win_left, win_top, win_right, win_bottom)
                        window_x window_y, st1)
                 | Some (client_left, client_top, client_right, client_bottom) \<Rightarrow>
                     (let win_height = win_bottom - win_top;
                          client_width = client_right - client_left;
                          client_height = client_bottom - client_top;
                          (client_screen_left, client_screen_top) =
                            (case client_origin hwnd of
                               Some client_point \<Rightarrow> client_point
                             | None \<Rightarrow> (win_left, win_top + (win_height - client_height)))
                      in (scale_to_phone screen_size client_width client_height
                            (window_x - client_screen_left) (window_y - client_screen_top), st1)))))"

datatype button = Left | Right | Middle

datatype intent =
    Tap int int                      \<comment> \<open>a call of \<^verbatim>\<open>mirror_tap(x, y)\<close>\<close>
  | Drag int int int int int         \<comment> \<open>a call of \<^verbatim>\<open>mirror_swipe(x1, y1, x2, y2, duration)\<close>\<close>
  | Key string                       \<comment> \<open>a call of \<^verbatim>\<open>mirror_key(keycode)\<close>\<close>

record listener =
  running :: bool
  drag_start :: "(int \<times> int) option"
  drag_active :: bool

definition drag_threshold :: int where
  "drag_threshold = 10"

definition on_click :: "bridge \<Rightarrow> surface option \<Rightarrow> listener \<Rightarrow> controller \<Rightarrow> int \<Rightarrow> int \<Rightarrow> button \<Rightarrow> bool
                          \<Rightarrow> (py_error + bool) \<times> intent list \<times> listener \<times> controller" where
  \<comment> \<open>The result: the exception that left the handler, or whether the listener goes on
      (only \<^verbatim>\<open>return False\<close> stops it); the calls of \<^verbatim>\<open>mirror_*\<close> made; the drag state;
      the controller.\<close>
  "on_click br hwnd ls st x y btn pressed =
     (if \<not> running ls then (Inr False, [], ls, st)
      else
        (case hwnd of
           None \<Rightarrow> (Inr True, [], ls, st)
         | Some surf \<Rightarrow>
             if is_point_in_window x y hwnd
             then
               (if btn = Left
                then
                  (if pressed
                   then
                     (case convert_to_phone_coords br st x y surf of
                        (Some p, st1) \<Rightarrow>
                          (Inr True, [], ls\<lparr>drag_start := Some p, drag_active := True\<rparr>,
                           snd (get_master_screen_size br st1))
                      | (None, st1) \<Rightarrow> (Inr True, [], ls, st1))
                   else
                     (case (if drag_active ls then drag_start ls else None) of
                        None \<Rightarrow> (Inr True, [], ls, st)
                      | Some (start_x, start_y) \<Rightarrow>
                          (case convert_to_phone_coords br st x y surf of
                             (None, st1) \<Rightarrow>
                               (Inr True, [], ls\<lparr>drag_start := None, drag_active := False\<rparr>, st1)
                           | (Some (phone_x, phone_y), st1) \<Rightarrow>
                               (let dx = \<bar>phone_x - start_x\<bar>;
                                    dy = \<bar>phone_y - start_y\<bar>
                                in if dx > drag_threshold \<or> dy > drag_threshold
                                   then
                                     (case mirror_swipe br st1 start_x start_y phone_x phone_y 300 of
                                        (Inl e, st2) \<Rightarrow>
                                          (Inl e, [Drag start_x start_y phone_x phone_y 300], ls, st2)
                                      | (Inr u, st2) \<Rightarrow>
                                          (Inr True, [Drag start_x start_y phone_x phone_y 300],
                                           ls\<lparr>drag_start := None, drag_active := False\<rparr>, st2))
                                   else
                                     (case mirror_tap br (snd (get_master_screen_size br st1))
                                             phone_x phone_y of
                                        (Inl e, st2) \<Rightarrow> (Inl e, [Tap phone_x phone_y], ls, st2)
                                      | (Inr results, st2) \<Rightarrow>
                                          (Inr True, [Tap phone_x phone_y],
                                           ls\<lparr>drag_start := None, drag_active := False\<rparr>, st2))))))
                else if pressed \<and> btn = Right
                then (Inr True, [Key ''KEYCODE_BACK''], ls, mirror_key br st ''KEYCODE_BACK'')
                else (Inr True, [], ls, st))
             else
               (Inr True, [],
                (if drag_active ls then ls\<lparr>drag_start := None, drag_active := False\<rparr> else ls), st)))"

subsection \<open>Sessions of the controller\<close>

datatype op =
    OpTap int int
  | OpSwipe int int int int int
  | OpKey string
  | OpText string
  | OpMasterSize

definition apply_op :: "bridge \<Rightarrow> controller \<Rightarrow> op \<Rightarrow> controller" where
  \<comment> \<open>the controller after one call of a public method, whether or not it raised\<close>
  "apply_op br st opn =
     (case opn of
        OpTap x y \<Rightarrow> snd (mirror_tap br st x y)
      | OpSwipe x1 y1 x2 y2 duration \<Rightarrow> snd (mirror_swipe br st x1 y1 x2 y2 duration)
      | OpKey keycode \<Rightarrow> mirror_key br st keycode
      | OpText t \<Rightarrow> mirror_text br st t
      | OpMasterSize \<Rightarrow> snd (get_master_screen_size br st))"

definition session :: "bridge \<Rightarrow> string \<Rightarrow> string list \<Rightarrow> op list \<Rightarrow> controller" where
  \<comment> \<open>the controller after its construction and a sequence of calls\<close>
  "session br master slaves ops = foldl (apply_op br) (snd (new_controller br master slaves)) ops"

subsection \<open>Notions used in the statements\<close>

definition cache_ok :: "controller \<Rightarrow> bool" where
  "cache_ok st = (\<forall>d sz. slave_screen_sizes st d = Some sz \<longrightarrow> width sz > 0)"

definition keeps :: "controller \<Rightarrow> controller \<Rightarrow> bool" where
  "keeps st st' =
     (master_device st' = master_device st \<and> slave_devices st' = slave_devices st
      \<and> (\<forall>d sz. slave_screen_sizes st d = Some sz \<longrightarrow> slave_screen_sizes st' d = Some sz)
      \<and> (\<forall>c. master_screen_size st = Some c \<and> width c > 0 \<longrightarrow> master_screen_size st' = Some c)
      \<and> (cache_ok st \<longrightarrow> cache_ok st'))"

definition mapped_tap :: "screen_size \<Rightarrow> screen_size \<Rightarrow> int \<Rightarrow> int \<Rightarrow> int \<times> int" where
  \<comment> \<open>where a slave of size \<open>slave_size\<close> is tapped for a tap at \<open>(x, y)\<close> on a master of
      size \<open>master_size\<close>: the proportional point, clamped, or \<open>(x, y)\<close> itself when the
      slave's size is unusable\<close>
  "mapped_tap master_size slave_size x y =
     (if width slave_size > 0 \<and> height slave_size > 0
      then (clamp (py_int (fmul (to_float (width slave_size)) (true_div x (width master_size))))
                  (width slave_size),
            clamp (py_int (fmul (to_float (height slave_size)) (true_div y (height master_size))))
                  (height slave_size))
      else (x, y))"

definition slave_tap :: "controller \<Rightarrow> screen_size \<Rightarrow> int \<Rightarrow> int \<Rightarrow> string \<Rightarrow> shell_cmd" where
  \<comment> \<open>the tap command for a slave whose size is in the cache\<close>
  "slave_tap st master_size x y slave =
     (case mapped_tap master_size (the (slave_screen_sizes st slave)) x y of
        (slave_x, slave_y) \<Rightarrow> InputTap slave_x slave_y)"

definition slave_info :: "controller \<Rightarrow> screen_size \<Rightarrow> int \<Rightarrow> int \<Rightarrow> string
                            \<Rightarrow> ((int \<times> int) \<times> (int \<times> int)) option" where
  \<comment> \<open>the coordinates and the screen size recorded in the result of a slave whose size is
      in the cache\<close>
  "slave_info st master_size x y slave =
     (let sz = the (slave_screen_sizes st slave)
      in if width sz > 0 \<and> height sz > 0
         then Some (mapped_tap master_size sz x y, (width sz, height sz))
         else None)"

fun tap_results :: "bridge \<Rightarrow> nat \<Rightarrow> (string \<Rightarrow> shell_cmd) \<Rightarrow> (string \<Rightarrow> ((int \<times> int) \<times> (int \<times> int)) option)
                      \<Rightarrow> string list \<Rightarrow> dispatch_result list" where
  \<comment> \<open>the results of the calls number \<open>n\<close>, \<open>n + 1\<close>, ... on the slaves of the list\<close>
  "tap_results br n cmd info [] = []"
| "tap_results br n cmd info (slave # rest) =
     result_of slave (br n slave (cmd slave)) (info slave) # tap_results br (Suc n) cmd info rest"

definition emitted :: "(py_error + bool) \<times> intent list \<times> listener \<times> controller \<Rightarrow> intent list" where
  "emitted r = fst (snd r)"

definition listener_of :: "(py_error + bool) \<times> intent list \<times> listener \<times> controller \<Rightarrow> listener" where
  "listener_of r = fst (snd (snd r))"

definition controller_of :: "(py_error + bool) \<times> intent list \<times> listener \<times> controller \<Rightarrow> controller" where
  "controller_of r = snd (snd (snd r))"

subsection \<open>Concrete devices, windows and controllers\<close>

definition phones :: bridge where
  \<comment> \<open>a master \<open>M\<close> of 1080x2400 and slaves of 720x1600; every command exits with 0\<close>
  "phones n dev cmd =
     (case cmd of
        WmSize \<Rightarrow>
          (if dev = ''M'' then Completed 0 ''Physical size: 1080x2400'' ''''
           else Completed 0 ''Physical size: 720x1600'' '''')
      | _ \<Rightarrow> Completed 0 '''' '''')"

definition phones_timeout :: bridge where
  \<comment> \<open>as \<open>phones\<close>, but every tap on the slave \<open>S2\<close> times out\<close>
  "phones_timeout n dev cmd =
     (case cmd of
        InputTap x y \<Rightarrow> (if dev = ''S2'' then TimeoutExpired else Completed 0 '''' '''')
      | _ \<Rightarrow> phones n dev cmd)"

definition dump_bridge :: bridge where
  \<comment> \<open>\<^verbatim>\<open>wm size\<close> prints nothing; the display dump has both fields\<close>
  "dump_bridge n dev cmd =
     (case cmd of
        DumpsysWindowDisplays \<Rightarrow> Completed 0 ''mDisplayWidth=1080 mDisplayHeight=2400'' ''''
      | _ \<Rightarrow> Completed 0 '''' '''')"

definition zero_override_bridge :: bridge where
  \<comment> \<open>\<^verbatim>\<open>wm size\<close> reports a physical size and an override size of 0x0\<close>
  "zero_override_bridge n dev cmd =
     (case cmd of
        WmSize \<Rightarrow> Completed 0 ''Physical size: 1080x2400\<newline>Override size: 0x0'' ''''
      | _ \<Rightarrow> Completed 0 '''' '''')"

definition zero_height_bridge :: bridge where
  \<comment> \<open>as \<open>phones\<close>, but the slaves report a size of height 0\<close>
  "zero_height_bridge n dev cmd =
     (case cmd of
        WmSize \<Rightarrow>
          (if dev = ''M'' then Completed 0 ''Physical size: 1080x2400'' ''''
           else Completed 0 ''Physical size: 1080x0'' '''')
      | _ \<Rightarrow> Completed 0 '''' '''')"

definition fresh_controller :: controller where
  "fresh_controller = \<lparr>master_device = ''M'', slave_devices = [''S1''], master_screen_size = None,
        slave_screen_sizes = Map.empty, sent = []\<rparr>"

definition two_phones :: controller where
  \<comment> \<open>a master of 1080x2400 and one slave of 720x1600\<close>
  "two_phones = snd (new_controller phones ''M'' [''S1''])"

definition timeout_session :: controller where
  \<comment> \<open>one master and three slaves, all sizes resolved at construction\<close>
  "timeout_session = snd (new_controller phones_timeout ''M'' [''S1'', ''S2'', ''S3''])"

definition mirror_window :: surface where
  \<comment> \<open>a window without borders at the screen origin whose client area is 540x1200\<close>
  "mirror_window = \<lparr>window_rect = Some (0, 0, 540, 1200), client_rect = Some (0, 0, 540, 1200),
                     client_origin = Some (0, 0)\<rparr>"

definition wide_window :: surface where
  \<comment> \<open>a window without borders at the screen origin whose client area is 800x600\<close>
  "wide_window = \<lparr>window_rect = Some (0, 0, 800, 600), client_rect = Some (0, 0, 800, 600),
                   client_origin = Some (0, 0)\<rparr>"

definition idle :: listener where
  "idle = \<lparr>running = True, drag_start = None, drag_active = False\<rparr>"

section \<open>Properties\<close>

subsection \<open>Geometry resolution\<close>

lemma get_screen_info_wm_size:
  assumes "br (length sn) dev WmSize = Completed 0 out err"
    and "parse_wm_size (strip out) = Some sz"
  shows "get_screen_info br sn dev = (Inr sz, sn @ [(dev, WmSize)])"
  using assms by (simp add: get_screen_info_def execute_command_def run_def)

lemma get_master_screen_size_wm_size:
  assumes "\<forall>c. master_screen_size st = Some c \<longrightarrow> width c \<le> 0"
    and "br (length (sent st)) (master_device st) WmSize = Completed 0 out err"
    and "parse_wm_size (strip out) = Some sz"
  shows "get_master_screen_size br st
           = (sz, st\<lparr>master_screen_size := Some sz, sent := sent st @ [(master_device st, WmSize)]\<rparr>)"
proof -
  have "(case master_screen_size st of
           Some c \<Rightarrow> if width c > 0 then Some c else None
         | None \<Rightarrow> None) = None"
    using assms(1) by (cases "master_screen_size st") auto
  then show ?thesis
    using assms(2,3) by (simp add: get_master_screen_size_def run_def)
qed

text \<open>
  C6. The claim: a parse that gives width 0 or height 0 is discarded and the next
  strategy is tried. The code returns the first pattern that matches, whatever its
  values: with an override size of 0x0 and a physical size of 1080x2400 the result is
  the override size 0x0.
\<close>

theorem zero_override_not_discarded:
  "get_screen_info zero_override_bridge [] ''S1''
     = (Inr \<lparr>width = 0, height = 0, is_override = Some True\<rparr>, [(''S1'', WmSize)])"
  by code_simp

text \<open>
  C6, as the code has it. On the output of a \<^verbatim>\<open>wm size\<close> call that exits with 0 the
  patterns are tried in the order override size, physical size, any \<open>W x H\<close> pair, and
  the first one that matches gives the result, whatever its width and height; no other
  call is made. \<^verbatim>\<open>get_screen_info\<close> returns that result and stores nothing;
  \<^verbatim>\<open>get_master_screen_size\<close>, when it holds no size of positive width, returns it and
  stores it in \<^verbatim>\<open>master_screen_size\<close>.
\<close>

theorem resolution_first_match_wins:
  assumes "br (length sn) dev WmSize = Completed 0 out err"
    and "\<forall>c. master_screen_size st = Some c \<longrightarrow> width c \<le> 0"
    and "sn = sent st" and "dev = master_device st"
  shows "(override_match (strip out) = Some (w, h) \<longrightarrow>
            get_screen_info br sn dev
              = (Inr \<lparr>width = w, height = h, is_override = Some True\<rparr>, sn @ [(dev, WmSize)])
            \<and> get_master_screen_size br st
              = (\<lparr>width = w, height = h, is_override = Some True\<rparr>,
                 st\<lparr>master_screen_size := Some \<lparr>width = w, height = h, is_override = Some True\<rparr>,
                    sent := sn @ [(dev, WmSize)]\<rparr>))
       \<and> (override_match (strip out) = None \<and> physical_match (strip out) = Some (w, h) \<longrightarrow>
            get_screen_info br sn dev
              = (Inr \<lparr>width = w, height = h, is_override = Some False\<rparr>, sn @ [(dev, WmSize)])
            \<and> get_master_screen_size br st
              = (\<lparr>width = w, height = h, is_override = Some False\<rparr>,
                 st\<lparr>master_screen_size := Some \<lparr>width = w, height = h, is_override = Some False\<rparr>,
                    sent := sn @ [(dev, WmSize)]\<rparr>))
       \<and> (override_match (strip out) = None \<and> physical_match (strip out) = None
            \<and> any_match (strip out) = Some (w, h) \<longrightarrow>
            get_screen_info br sn dev
              = (Inr \<lparr>width = w, height = h, is_override = Some False\<rparr>, sn @ [(dev, WmSize)])
            \<and> get_master_screen_size br st
              = (\<lparr>width = w, height = h, is_override = Some False\<rparr>,
                 st\<lparr>master_screen_size := Some \<lparr>width = w, height = h, is_override = Some False\<rparr>,
                    sent := sn @ [(dev, WmSize)]\<rparr>))"
proof (intro conjI impI)
  assume m: "override_match (strip out) = Some (w, h)"
  then have p: "parse_wm_size (strip out) = Some \<lparr>width = w, height = h, is_override = Some True\<rparr>"
    by (simp add: parse_wm_size_def)
  show "get_screen_info br sn dev
          = (Inr \<lparr>width = w, height = h, is_override = Some True\<rparr>, sn @ [(dev, WmSize)])"
    using get_screen_info_wm_size [of br sn dev out err] assms(1) p by simp
  show "get_master_screen_size br st
          = (\<lparr>width = w, height = h, is_override = Some True\<rparr>,
             st\<lparr>master_screen_size := Some \<lparr>width = w, height = h, is_override = Some True\<rparr>,
                sent := sn @ [(dev, WmSize)]\<rparr>)"
    using get_master_screen_size_wm_size [of st br out err] assms p by simp
next
  assume m: "override_match (strip out) = None \<and> physical_match (strip out) = Some (w, h)"
  then have p: "parse_wm_size (strip out) = Some \<lparr>width = w, height = h, is_override = Some False\<rparr>"
    by (simp add: parse_wm_size_def)
  show "get_screen_info br sn dev
          = (Inr \<lparr>width = w, height = h, is_override = Some False\<rparr>, sn @ [(dev, WmSize)])"
    using get_screen_info_wm_size [of br sn dev out err] assms(1) p by simp
  show "get_master_screen_size br st
          = (\<lparr>width = w, height = h, is_override = Some False\<rparr>,
             st\<lparr>master_screen_size := Some \<lparr>width = w, height = h, is_override = Some False\<rparr>,
                sent := sn @ [(dev, WmSize)]\<rparr>)"
    using get_master_screen_size_wm_size [of st br out err] assms p by simp
next
  assume m: "override_match (strip out) = None \<and> physical_match (strip out) = None
             \<and> any_match (strip out) = Some (w, h)"
  then have p: "parse_wm_size (strip out) = Some \<lparr>width = w, height = h, is_override = Some False\<rparr>"
    by (simp add: parse_wm_size_def)
  show "get_screen_info br sn dev
          = (Inr \<lparr>width = w, height = h, is_override = Some False\<rparr>, sn @ [(dev, WmSize)])"
    using get_screen_info_wm_size [of br sn dev out err] assms(1) p by simp
  show "get_master_screen_size br st
          = (\<lparr>width = w, height = h, is_override = Some False\<rparr>,
             st\<lparr>master_screen_size := Some \<lparr>width = w, height = h, is_override = Some False\<rparr>,
                sent := sn @ [(dev, WmSize)]\<rparr>)"
    using get_master_screen_size_wm_size [of st br out err] assms p by simp
qed

theorem resolution_first_match_wins_witness:
  "zero_override_bridge (length (sent fresh_controller)) (master_device fresh_controller) WmSize
     = Completed 0 ''Physical size: 1080x2400\<newline>Override size: 0x0'' ''''
   \<and> master_screen_size fresh_controller = None
   \<and> override_match (strip ''Physical size: 1080x2400\<newline>Override size: 0x0'') = Some (0, 0)
   \<and> fst (get_master_screen_size zero_override_bridge fresh_controller)
        = \<lparr>width = 0, height = 0, is_override = Some True\<rparr>
   \<and> master_screen_size (snd (get_master_screen_size zero_override_bridge fresh_controller))
        = Some \<lparr>width = 0, height = 0, is_override = Some True\<rparr>"
proof -
  have b: "zero_override_bridge (length (sent fresh_controller)) (master_device fresh_controller) WmSize
     = Completed 0 ''Physical size: 1080x2400\<newline>Override size: 0x0'' ''''"
    by (simp add: zero_override_bridge_def)
  have c: "\<forall>c. master_screen_size fresh_controller = Some c \<longrightarrow> width c \<le> 0"
    by (simp add: fresh_controller_def)
  have m: "override_match (strip ''Physical size: 1080x2400\<newline>Override size: 0x0'') = Some (0, 0)"
    by code_simp
  show ?thesis
    using resolution_first_match_wins
            [where br = zero_override_bridge and st = fresh_controller
               and sn = "sent fresh_controller" and dev = "master_device fresh_controller"
               and out = "''Physical size: 1080x2400\<newline>Override size: 0x0''" and err = "''''"
               and w = 0 and h = 0] b c m
    by (simp add: fresh_controller_def)
qed

text \<open>
  C7. The claim: \<^verbatim>\<open>get_screen_info\<close> never raises; when no strategy gives a size it
  returns the zero geometry. The code does not keep to it: on a device whose
  \<^verbatim>\<open>wm size\<close> output has no size and whose display dump has both
  \<^verbatim>\<open>mDisplayWidth=\<close> and \<^verbatim>\<open>mDisplayHeight=\<close>, the read of group 2 of a pattern with
  one group raises \<^verbatim>\<open>IndexError\<close>, which nothing in \<^verbatim>\<open>get_screen_info\<close> catches.
\<close>

theorem get_screen_info_raises:
  "get_screen_info dump_bridge [] ''S1''
     = (Inl IndexError, [(''S1'', WmSize), (''S1'', DumpsysWindowDisplays)])"
  by code_simp

subsection \<open>The geometry caches\<close>

lemma keeps_refl: "keeps st st"
  by (simp add: keeps_def)

lemma keeps_trans: "keeps a b \<Longrightarrow> keeps b c \<Longrightarrow> keeps a c"
  by (simp add: keeps_def)

lemma keeps_sent: "keeps st st' \<Longrightarrow> keeps st (st'\<lparr>sent := sn\<rparr>)"
  by (simp add: keeps_def cache_ok_def)

lemma get_master_screen_size_cached:
  "master_screen_size st = Some c \<Longrightarrow> width c > 0 \<Longrightarrow> get_master_screen_size br st = (c, st)"
  by (simp add: get_master_screen_size_def)

lemma get_master_screen_size_keeps: "keeps st (snd (get_master_screen_size br st))"
proof (cases "\<exists>c. master_screen_size st = Some c \<and> width c > 0")
  case True
  then show ?thesis using get_master_screen_size_cached [of st _ br] by (auto simp: keeps_refl)
next
  case False
  then have "\<forall>c. master_screen_size st = Some c \<and> width c > 0 \<longrightarrow> master_screen_size st' = Some c" for st'
    by blast
  then show ?thesis
    by (simp add: keeps_def cache_ok_def get_master_screen_size_def run_def
             split: option.split run_outcome.split sum.split)
qed

lemma slave_size_of_keeps: "keeps st (snd (slave_size_of br st slave))"
  by (auto simp: keeps_def cache_ok_def slave_size_of_def split: option.split prod.split sum.split)

lemma execute_on_slaves_keeps: "keeps st (snd (execute_on_slaves br st cmd))"
  by (simp add: keeps_def cache_ok_def execute_on_slaves_def case_prod_beta)

lemma tap_slaves_keeps: "keeps st (snd (tap_slaves br x y rx ry slaves st rs))"
proof (induction slaves arbitrary: st rs)
  case Nil
  show ?case by (simp add: keeps_refl)
next
  case (Cons slave rest)
  obtain r st1 where s: "slave_size_of br st slave = (r, st1)"
    by (cases "slave_size_of br st slave")
  have k1: "keeps st st1" using slave_size_of_keeps [of st br slave] s by simp
  show ?case
  proof (cases r)
    case (Inl e)
    then show ?thesis using s k1 by simp
  next
    case (Inr sz)
    have "keeps st (snd (tap_slaves br x y rx ry rest (st1\<lparr>sent := sn\<rparr>) rs'))" for sn rs'
      using keeps_trans [OF keeps_sent [OF k1] Cons.IH] .
    then show ?thesis using s Inr by (simp add: Let_def case_prod_beta)
  qed
qed

lemma swipe_slaves_keeps: "keeps st (snd (swipe_slaves br pts ratios duration slaves st))"
proof (induction slaves arbitrary: st)
  case Nil
  show ?case by (simp add: keeps_refl)
next
  case (Cons slave rest)
  obtain x1 y1 x2 y2 where p: "pts = (x1, y1, x2, y2)" by (cases pts) auto
  obtain a1 b1 a2 b2 where q: "ratios = (a1, b1, a2, b2)" by (cases ratios) auto
  obtain r st1 where s: "slave_size_of br st slave = (r, st1)"
    by (cases "slave_size_of br st slave")
  have k1: "keeps st st1" using slave_size_of_keeps [of st br slave] s by simp
  show ?case
  proof (cases r)
    case (Inl e)
    then show ?thesis using s k1 p q by simp
  next
    case (Inr sz)
    have "keeps st (snd (swipe_slaves br pts ratios duration rest (st1\<lparr>sent := sn\<rparr>)))" for sn
      using keeps_trans [OF keeps_sent [OF k1] Cons.IH] .
    then show ?thesis using s Inr p q by (simp add: Let_def case_prod_beta)
  qed
qed

lemma mirror_tap_keeps: "keeps st (snd (mirror_tap br st x y))"
proof -
  obtain m st1 where g: "get_master_screen_size br st = (m, st1)"
    by (cases "get_master_screen_size br st")
  have k1: "keeps st st1" using get_master_screen_size_keeps [of st br] g by simp
  have k2: "keeps st (st1\<lparr>sent := sn\<rparr>)" for sn using keeps_sent [OF k1] .
  have a: "keeps st (snd (execute_on_slaves br (st1\<lparr>sent := sn\<rparr>) cmd))" for sn cmd
    using keeps_trans [OF k2 execute_on_slaves_keeps] .
  have b: "keeps st (snd (tap_slaves br x y rx ry slaves (st1\<lparr>sent := sn\<rparr>) []))" for sn rx ry slaves
    using keeps_trans [OF k2 tap_slaves_keeps] .
  show ?thesis
    using g k2 a b by (simp add: mirror_tap_def Let_def case_prod_beta)
qed

lemma mirror_swipe_keeps: "keeps st (snd (mirror_swipe br st x1 y1 x2 y2 duration))"
proof -
  obtain m st1 where g: "get_master_screen_size br st = (m, st1)"
    by (cases "get_master_screen_size br st")
  have k1: "keeps st st1" using get_master_screen_size_keeps [of st br] g by simp
  have k2: "keeps st (st1\<lparr>sent := sn\<rparr>)" for sn using keeps_sent [OF k1] .
  have a: "keeps st (snd (execute_on_slaves br (st1\<lparr>sent := sn\<rparr>) cmd))" for sn cmd
    using keeps_trans [OF k2 execute_on_slaves_keeps] .
  have b: "keeps st (snd (swipe_slaves br pts ratios d slaves (st1\<lparr>sent := sn\<rparr>)))" for sn pts ratios d slaves
    using keeps_trans [OF k2 swipe_slaves_keeps] .
  show ?thesis
    using g k2 a b by (simp add: mirror_swipe_def Let_def case_prod_beta)
qed

lemma mirror_key_keeps: "keeps st (mirror_key br st keycode)"
proof -
  have k2: "keeps st (st\<lparr>sent := sn\<rparr>)" for sn using keeps_sent [OF keeps_refl] .
  have a: "keeps st (snd (execute_on_slaves br (st\<lparr>sent := sn\<rparr>) cmd))" for sn cmd
    using keeps_trans [OF k2 execute_on_slaves_keeps] .
  show ?thesis using k2 a by (simp add: mirror_key_def Let_def case_prod_beta)
qed

lemma mirror_text_keeps: "keeps st (mirror_text br st t)"
  using execute_on_slaves_keeps [of st br] by (simp add: mirror_text_def keeps_refl)

lemma apply_op_keeps: "keeps st (apply_op br st opn)"
  by (cases opn)
     (simp_all add: apply_op_def mirror_tap_keeps mirror_swipe_keeps mirror_key_keeps
        mirror_text_keeps get_master_screen_size_keeps)

lemma foldl_apply_op_keeps: "keeps st (foldl (apply_op br) st ops)"
proof (induction ops arbitrary: st)
  case Nil
  show ?case by (simp add: keeps_refl)
next
  case (Cons opn ops)
  show ?case using keeps_trans [OF apply_op_keeps Cons.IH] by simp
qed

lemma cache_slaves_ok: "cache_ok st \<Longrightarrow> cache_ok (snd (cache_slaves br slaves st))"
proof (induction slaves arbitrary: st)
  case Nil
  then show ?case by simp
next
  case (Cons slave rest)
  obtain r sn where g: "get_screen_info br (sent st) slave = (r, sn)"
    by (cases "get_screen_info br (sent st) slave")
  show ?case
  proof (cases r)
    case (Inl e)
    then show ?thesis using g Cons.prems by (simp add: cache_ok_def)
  next
    case (Inr sz)
    have "cache_ok (if width sz > 0
             then st\<lparr>slave_screen_sizes := (slave_screen_sizes st)(slave \<mapsto> sz), sent := sn\<rparr>
             else st\<lparr>sent := sn\<rparr>)"
      using Cons.prems by (simp add: cache_ok_def)
    then show ?thesis using g Inr Cons.IH by simp
  qed
qed

lemma new_controller_ok: "cache_ok (snd (new_controller br master slaves))"
proof -
  let ?st0 = "\<lparr>master_device = master, slave_devices = slaves, master_screen_size = None,
        slave_screen_sizes = Map.empty, sent = []\<rparr>"
  have k: "keeps ?st0 (snd (get_master_screen_size br ?st0))"
    by (rule get_master_screen_size_keeps)
  have "cache_ok ?st0" by (simp add: cache_ok_def)
  then have "cache_ok (snd (get_master_screen_size br ?st0))"
    using k by (simp add: keeps_def)
  then have "cache_ok ((snd (get_master_screen_size br ?st0))\<lparr>master_screen_size := Some m\<rparr>)" for m
    by (simp add: cache_ok_def)
  then show ?thesis
    using cache_slaves_ok by (simp add: new_controller_def cache_screen_sizes_def case_prod_beta Let_def)
qed

lemma session_append:
  "session br master slaves (ops @ later) = foldl (apply_op br) (session br master slaves ops) later"
  by (simp add: session_def)

lemma session_ok: "cache_ok (session br master slaves ops)"
  using foldl_apply_op_keeps [of "snd (new_controller br master slaves)" br ops] new_controller_ok
  by (simp add: session_def keeps_def)

lemma get_master_screen_size_requeries:
  assumes "\<forall>c. master_screen_size st = Some c \<longrightarrow> width c \<le> 0"
  shows "length (sent st) < length (sent (snd (get_master_screen_size br st)))"
proof -
  have "(case master_screen_size st of
           Some c \<Rightarrow> if width c > 0 then Some c else None
         | None \<Rightarrow> None) = None"
    using assms by (cases "master_screen_size st") auto
  then show ?thesis
    by (simp add: get_master_screen_size_def run_def
             split: option.split run_outcome.split sum.split)
qed

text \<open>
  C9. The claim: the caches never hold an entry with width 0 or height 0 as a valid
  geometry. The gate of both caches is the width alone: a slave that reports
  \<^verbatim>\<open>Physical size: 1080x0\<close> is stored in \<^verbatim>\<open>slave_screen_sizes\<close> with height 0.
\<close>

theorem zero_height_is_cached:
  "slave_screen_sizes (snd (new_controller zero_height_bridge ''M'' [''S1''])) ''S1''
     = Some \<lparr>width = 1080, height = 0, is_override = Some False\<rparr>"
  by code_simp

text \<open>
  C9, as the code has it. After the construction of the controller and any sequence of
  calls of \<^verbatim>\<open>mirror_tap\<close>, \<^verbatim>\<open>mirror_swipe\<close>, \<^verbatim>\<open>mirror_key\<close>, \<^verbatim>\<open>mirror_text\<close> and
  \<^verbatim>\<open>get_master_screen_size\<close>, whatever the devices answer:
  \<^item> every entry of \<^verbatim>\<open>slave_screen_sizes\<close> has a positive width;
  \<^item> an entry of \<^verbatim>\<open>slave_screen_sizes\<close> is the same after any further calls;
  \<^item> a master size of positive width is the same after any further calls, and
    \<^verbatim>\<open>get_master_screen_size\<close> returns it without a call to the device;
  \<^item> a stored master size whose width is not positive is not accepted:
    \<^verbatim>\<open>get_master_screen_size\<close> queries the device again.
\<close>

theorem caches_hold_positive_width:
  "(\<forall>d sz. slave_screen_sizes (session br master slaves ops) d = Some sz \<longrightarrow> width sz > 0)
   \<and> (\<forall>d sz. slave_screen_sizes (session br master slaves ops) d = Some sz \<longrightarrow>
               slave_screen_sizes (session br master slaves (ops @ later)) d = Some sz)
   \<and> (\<forall>c. master_screen_size (session br master slaves ops) = Some c \<and> width c > 0 \<longrightarrow>
           master_screen_size (session br master slaves (ops @ later)) = Some c
           \<and> get_master_screen_size br (session br master slaves (ops @ later))
               = (c, session br master slaves (ops @ later)))
   \<and> (\<forall>c. master_screen_size (session br master slaves ops) = Some c \<and> width c \<le> 0 \<longrightarrow>
           length (sent (session br master slaves ops))
             < length (sent (snd (get_master_screen_size br (session br master slaves ops)))))"
proof -
  let ?a = "session br master slaves ops"
  let ?b = "session br master slaves (ops @ later)"
  have k: "keeps ?a ?b"
    using foldl_apply_op_keeps [of ?a br later] by (simp add: session_append)
  have 1: "\<forall>d sz. slave_screen_sizes ?a d = Some sz \<longrightarrow> width sz > 0"
    using session_ok [of br master slaves ops] by (simp add: cache_ok_def)
  have 2: "\<forall>d sz. slave_screen_sizes ?a d = Some sz \<longrightarrow> slave_screen_sizes ?b d = Some sz"
    using k by (simp add: keeps_def)
  have 3: "\<forall>c. master_screen_size ?a = Some c \<and> width c > 0 \<longrightarrow>
             master_screen_size ?b = Some c \<and> get_master_screen_size br ?b = (c, ?b)"
    using k get_master_screen_size_cached [of ?b _ br] by (simp add: keeps_def)
  have 4: "\<forall>c. master_screen_size ?a = Some c \<and> width c \<le> 0 \<longrightarrow>
             length (sent ?a) < length (sent (snd (get_master_screen_size br ?a)))"
    using get_master_screen_size_requeries [of ?a br] by auto
  show ?thesis using 1 2 3 4 by blast
qed

theorem caches_hold_positive_width_witness:
  "slave_screen_sizes (session phones ''M'' [''S1''] [OpTap 540 1200]) ''S1''
     = Some \<lparr>width = 720, height = 1600, is_override = Some False\<rparr>
   \<and> slave_screen_sizes (session phones ''M'' [''S1''] ([OpTap 540 1200] @ [OpSwipe 0 0 5 5 300])) ''S1''
     = Some \<lparr>width = 720, height = 1600, is_override = Some False\<rparr>
   \<and> master_screen_size (session phones ''M'' [''S1''] [OpTap 540 1200])
     = Some \<lparr>width = 1080, height = 2400, is_override = Some False\<rparr>
   \<and> master_screen_size (session phones ''M'' [''S1''] ([OpTap 540 1200] @ [OpSwipe 0 0 5 5 300]))
     = Some \<lparr>width = 1080, height = 2400, is_override = Some False\<rparr>
   \<and> master_screen_size (session zero_override_bridge ''M'' [] [])
     = Some \<lparr>width = 0, height = 0, is_override = Some True\<rparr>
   \<and> length (sent (session zero_override_bridge ''M'' [] []))
       < length (sent (snd (get_master_screen_size zero_override_bridge
                              (session zero_override_bridge ''M'' [] []))))"
proof -
  have s: "slave_screen_sizes (session phones ''M'' [''S1''] [OpTap 540 1200]) ''S1''
             = Some \<lparr>width = 720, height = 1600, is_override = Some False\<rparr>"
    by code_simp
  have m: "master_screen_size (session phones ''M'' [''S1''] [OpTap 540 1200])
             = Some \<lparr>width = 1080, height = 2400, is_override = Some False\<rparr>"
    by code_simp
  have z: "master_screen_size (session zero_override_bridge ''M'' [] [])
             = Some \<lparr>width = 0, height = 0, is_override = Some True\<rparr>"
    by code_simp
  show ?thesis
    using caches_hold_positive_width [of phones "''M''" "[''S1'']" "[OpTap 540 1200]"
            "[OpSwipe 0 0 5 5 300]"]
          caches_hold_positive_width [of zero_override_bridge "''M''" "[]" "[]" "[]"] s m z
    by simp
qed

subsection \<open>Text and key dispatch\<close>

lemma slaves_loop_sent:
  "snd (slaves_loop br cmd slaves sn rs) = sn @ map (\<lambda>s. (s, cmd)) slaves"
  by (induction slaves arbitrary: sn rs) (simp_all add: run_def)

lemma slaves_loop_devices:
  "map device (fst (slaves_loop br cmd slaves sn rs)) = map device rs @ slaves"
  by (induction slaves arbitrary: sn rs)
     (simp_all add: run_def result_of_def split: run_outcome.split)

lemma execute_on_slaves_sent:
  "sent (snd (execute_on_slaves br st cmd)) = sent st @ map (\<lambda>s. (s, cmd)) (slave_devices st)"
  using slaves_loop_sent [of br cmd "slave_devices st" "sent st" "[]"]
  by (simp add: execute_on_slaves_def case_prod_beta)

lemma replace_char_append:
  "replace_char c r (a @ b) = replace_char c r a @ replace_char c r b"
  by (simp add: replace_char_def)

lemma escape_text_Cons:
  "escape_text (c # cs) =
     (if c = CHR '' '' then ''%s'' else if c = CHR ''&'' then [CHR 0x5C, CHR ''&''] else [c])
     @ escape_text cs"
  by (simp add: escape_text_def replace_char_def)

lemma escape_text_chars:
  "escape_text text =
     concat (map (\<lambda>c. if c = CHR '' '' then ''%s''
                      else if c = CHR ''&'' then [CHR 0x5C, CHR ''&''] else [c]) text)"
proof (induction "text")
  case Nil
  show ?case by (simp add: escape_text_def replace_char_def)
next
  case (Cons c cs)
  then show ?case by (simp only: escape_text_Cons list.map concat.simps)
qed

text \<open>
  C8. The claim: text dispatch sends the escaped text to the master and to every slave.
  In \<^verbatim>\<open>mirror_text\<close> the master receives nothing.
\<close>

theorem mirror_text_skips_master:
  "sent (mirror_text phones (snd (new_controller phones ''M'' [''S1''])) ''a b'')
     = [(''M'', WmSize), (''S1'', WmSize), (''S1'', InputText ''a%sb'')]"
  by code_simp

text \<open>
  C8, as the code has it. \<^verbatim>\<open>mirror_text\<close> sends one \<^verbatim>\<open>input text\<close> command to every
  slave, in list order, and no command to any other device; \<^verbatim>\<open>input_text\<close> sends it to
  the one device it is given. No coordinates are involved. The text embedded in the
  command is the input with every space replaced by \<^verbatim>\<open>%s\<close> and every ampersand by a
  backslash and an ampersand, every other character unchanged.
\<close>

theorem mirror_text_to_slaves_escaped:
  "sent (mirror_text br st text)
     = sent st @ map (\<lambda>s. (s, InputText (escape_text text))) (slave_devices st)
   \<and> snd (input_text br sn dev text) = sn @ [(dev, InputText (escape_text text))]
   \<and> escape_text text =
       concat (map (\<lambda>c. if c = CHR '' '' then ''%s''
                        else if c = CHR ''&'' then [CHR 0x5C, CHR ''&''] else [c]) text)"
proof (intro conjI)
  show "sent (mirror_text br st text)
          = sent st @ map (\<lambda>s. (s, InputText (escape_text text))) (slave_devices st)"
    using execute_on_slaves_sent [of br st "InputText (escape_text text)"]
    by (simp add: mirror_text_def)
  show "snd (input_text br sn dev text) = sn @ [(dev, InputText (escape_text text))]"
    by (simp add: input_text_def execute_command_def run_def split: run_outcome.split)
  show "escape_text text =
       concat (map (\<lambda>c. if c = CHR '' '' then ''%s''
                        else if c = CHR ''&'' then [CHR 0x5C, CHR ''&''] else [c]) text)"
    by (rule escape_text_chars)
qed

subsection \<open>Rounding to a double\<close>

text \<open>
  The relative error of one rounding is at most \<open>2 ^ (-53)\<close>, up to the absolute error
  \<open>2 ^ (-1075)\<close> of the subnormal range. The scaled coordinate
  \<^verbatim>\<open>int(s * (v / m))\<close> goes through three roundings; for a point inside the master's
  screen and sizes with \<open>s * m \<le> 2 ^ 49\<close> it is the exact \<open>\<lfloor>s * v / m\<rfloor>\<close> or one less, and
  it lies inside the slave's screen.
\<close>

lemma pow2_powi: "pow2 e = 2 powi e"
  by (simp add: pow2_def power_int_def inverse_eq_divide power_one_over)

lemma pow2_pos: "0 < pow2 e"
  by (simp add: pow2_powi)

lemma exponent_le:
  assumes "r \<noteq> 0"
  shows "pow2 (exponent r) \<le> \<bar>r\<bar>"
proof -
  obtain p q where pq: "quotient_of \<bar>r\<bar> = (p, q)" by (cases "quotient_of \<bar>r\<bar>")
  have q: "0 < q" using quotient_of_denom_pos [OF pq] .
  have r: "\<bar>r\<bar> = of_int p / of_int q" using quotient_of_div [OF pq] .
  have "0 < \<bar>r\<bar>" using assms by simp
  then have p: "0 < p" using r q by (simp add: zero_less_divide_iff)
  let ?d = "bitlen p - bitlen q"
  show ?thesis
  proof (cases "pow2 ?d \<le> \<bar>r\<bar>")
    case True
    then show ?thesis by (simp add: exponent_def pq Let_def)
  next
    case False
    have bp: "1 \<le> bitlen p" using p bitlen_eq_zero_iff [of p] bitlen_nonneg [of p] by linarith
    have bq: "1 \<le> bitlen q" using q bitlen_eq_zero_iff [of q] bitlen_nonneg [of q] by linarith
    have "2 ^ nat (bitlen p - 1) \<le> p" using bitlen_bounds [OF p] by simp
    then have "(of_int (2 ^ nat (bitlen p - 1)) :: rat) \<le> of_int p" by (simp only: of_int_le_iff)
    then have lo: "(2 powi (bitlen p - 1) :: rat) \<le> of_int p"
      using bp by (simp add: power_int_def)
    have "q < 2 ^ nat (bitlen q)" using bitlen_bounds [OF q] by simp
    then have "(of_int q :: rat) < of_int (2 ^ nat (bitlen q))" by (simp only: of_int_less_iff)
    then have hi: "(of_int q :: rat) \<le> 2 powi (bitlen q)"
      using bq by (simp add: power_int_def)
    have "(2 powi (?d - 1) :: rat) = 2 powi (bitlen p - 1) / 2 powi (bitlen q)"
      by (simp add: power_int_diff)
    also have "\<dots> \<le> of_int p / of_int q"
      using lo hi q p by (intro frac_le) simp_all
    finally have "pow2 (?d - 1) \<le> \<bar>r\<bar>" by (simp add: pow2_powi r)
    then show ?thesis using False by (simp add: exponent_def pq Let_def)
  qed
qed

lemma round_half_even_error: "\<bar>of_int (round_half_even q) - q\<bar> \<le> 1 / 2"
proof -
  have "of_int \<lfloor>q\<rfloor> \<le> q" "q < of_int \<lfloor>q\<rfloor> + 1" by linarith+
  then show ?thesis
    by (auto simp: round_half_even_def Let_def abs_le_iff)
qed

lemma round_half_even_nonneg: "0 \<le> q \<Longrightarrow> 0 \<le> round_half_even q"
  by (auto simp: round_half_even_def Let_def)

lemma to_double_nonneg: "0 \<le> r \<Longrightarrow> 0 \<le> to_double r"
  by (auto simp: to_double_def Let_def pow2_pos less_imp_le intro!: mult_nonneg_nonneg round_half_even_nonneg)

lemma to_double_error: "\<bar>to_double r - r\<bar> \<le> \<bar>r\<bar> / 2 ^ 53 + 1 / 2 ^ 1075"
proof (cases "r = 0")
  case True
  then show ?thesis by (simp add: to_double_def)
next
  case False
  define e where "e = max (exponent r) (- 1022)"
  define ulp where "ulp = pow2 (e - 52)"
  define n where "n = round_half_even (r / ulp)"
  have u: "0 < ulp" by (simp add: ulp_def pow2_pos)
  have v: "to_double r = of_int n * ulp"
    using False by (simp add: to_double_def Let_def e_def ulp_def n_def)
  have "to_double r - r = (of_int n - r / ulp) * ulp"
    using u v by (simp add: field_simps)
  then have "\<bar>to_double r - r\<bar> = \<bar>of_int n - r / ulp\<bar> * ulp"
    using u by (simp add: abs_mult)
  also have "\<dots> \<le> 1 / 2 * ulp"
    using round_half_even_error [of "r / ulp"] u unfolding n_def
    by (intro mult_right_mono) simp_all
  also have "1 / 2 * ulp = 2 powi (e - 53)"
    by (simp add: ulp_def pow2_powi power_int_diff)
  finally have b: "\<bar>to_double r - r\<bar> \<le> 2 powi (e - 53)" .
  show ?thesis
  proof (cases "- 1022 \<le> exponent r")
    case True
    then have "e = exponent r" by (simp add: e_def)
    then have "(2 powi (e - 53) :: rat) = pow2 (exponent r) / 2 ^ 53"
      by (simp add: pow2_powi power_int_diff)
    also have "\<dots> \<le> \<bar>r\<bar> / 2 ^ 53"
      using exponent_le [OF False] by (intro divide_right_mono) simp_all
    finally show ?thesis using b by simp
  next
    case False
    then have "e = - 1022" by (simp add: e_def)
    then have "(2 powi (e - 53) :: rat) = pow2 (- 1075)"
      by (simp add: pow2_powi)
    also have "\<dots> = 1 / 2 ^ 1075"
      by (simp add: pow2_def)
    finally have "(2 powi (e - 53) :: rat) = 1 / 2 ^ 1075" .
    then show ?thesis using b by simp
  qed
qed


lemma to_double_error_coarse:
  assumes "1 \<le> \<bar>r\<bar>"
  shows "\<bar>to_double r - r\<bar> \<le> \<bar>r\<bar> / 2 ^ 52"
proof -
  have "(2::rat) ^ 53 \<le> 2 ^ 1075" by (intro power_increasing) simp_all
  then have "(1::rat) / 2 ^ 1075 \<le> 1 / 2 ^ 53" by (intro frac_le) simp_all
  also have "\<dots> \<le> \<bar>r\<bar> / 2 ^ 53" using assms by (intro divide_right_mono) simp_all
  finally have t: "(1::rat) / 2 ^ 1075 \<le> \<bar>r\<bar> / 2 ^ 53" .
  have "\<bar>to_double r - r\<bar> \<le> \<bar>r\<bar> / 2 ^ 53 + \<bar>r\<bar> / 2 ^ 53"
    using to_double_error [of r] t by linarith
  also have "\<dots> = \<bar>r\<bar> / 2 ^ 52" by simp
  finally show ?thesis .
qed

lemma to_double_error_small:
  assumes "\<bar>r\<bar> \<le> b" and "1 \<le> b"
  shows "\<bar>to_double r - r\<bar> \<le> b / 2 ^ 52"
proof -
  have "(2::rat) ^ 53 \<le> 2 ^ 1075" by (intro power_increasing) simp_all
  then have "(1::rat) / 2 ^ 1075 \<le> 1 / 2 ^ 53" by (intro frac_le) simp_all
  also have "\<dots> \<le> b / 2 ^ 53" using assms by (intro divide_right_mono) simp_all
  finally have t: "(1::rat) / 2 ^ 1075 \<le> b / 2 ^ 53" .
  have "\<bar>r\<bar> / 2 ^ 53 \<le> b / 2 ^ 53" using assms by (intro divide_right_mono) simp_all
  then have "\<bar>to_double r - r\<bar> \<le> b / 2 ^ 53 + b / 2 ^ 53"
    using to_double_error [of r] t by linarith
  also have "\<dots> = b / 2 ^ 52" by simp
  finally show ?thesis .
qed

lemma scaled_coordinate:
  assumes s: "0 < s" and v0: "0 \<le> v" and v1: "v < mw" and small: "s * mw \<le> 2 ^ 49"
  shows "py_int (fmul (to_float s) (true_div v mw)) = (s * v) div mw
         \<or> py_int (fmul (to_float s) (true_div v mw)) = (s * v) div mw - 1"
    and "0 \<le> py_int (fmul (to_float s) (true_div v mw))"
    and "py_int (fmul (to_float s) (true_div v mw)) \<le> s - 1"
proof -
  define S where "S = (of_int s :: rat)"
  define q where "q = (of_int v / of_int mw :: rat)"
  define sh where "sh = to_double S"
  define qh where "qh = to_double q"
  define ph where "ph = to_double (sh * qh)"
  define u where "u = (1 / 2 ^ 52 :: rat)"
  have mw: "0 < mw" using v0 v1 by simp
  have S1: "1 \<le> S" using s by (simp add: S_def)
  have q0: "0 \<le> q" using v0 mw by (simp add: q_def)
  have q1: "q < 1" using v1 mw by (simp add: q_def)
  have u0: "0 < u" "u \<le> 1" by (simp_all add: u_def)
  have qh0: "0 \<le> qh" using q0 by (simp add: qh_def to_double_nonneg)
  have sh0: "0 \<le> sh" using S1 by (simp add: sh_def to_double_nonneg)
  have ph0: "0 \<le> ph" using sh0 qh0 by (simp add: ph_def to_double_nonneg)
  have a: "\<bar>sh - S\<bar> \<le> S * u"
    using to_double_error_coarse [of S] S1 by (simp add: sh_def u_def)
  have b: "\<bar>qh - q\<bar> \<le> u"
    using to_double_error_small [of q 1] q0 q1 by (simp add: qh_def u_def)
  have Su: "0 \<le> S * u" using S1 u0 by simp
  have e1: "\<bar>(sh - S) * q\<bar> \<le> S * u"
  proof -
    have "\<bar>(sh - S) * q\<bar> = \<bar>sh - S\<bar> * q" using q0 by (simp add: abs_mult)
    also have "\<dots> \<le> (S * u) * 1" using a q0 q1 Su by (intro mult_mono) simp_all
    finally show ?thesis by simp
  qed
  have e2: "\<bar>S * (qh - q)\<bar> \<le> S * u"
  proof -
    have "\<bar>S * (qh - q)\<bar> = S * \<bar>qh - q\<bar>" using S1 by (simp add: abs_mult)
    also have "\<dots> \<le> S * u" using b S1 by (intro mult_left_mono) simp_all
    finally show ?thesis .
  qed
  have e3: "\<bar>(sh - S) * (qh - q)\<bar> \<le> S * u"
  proof -
    have "\<bar>(sh - S) * (qh - q)\<bar> = \<bar>sh - S\<bar> * \<bar>qh - q\<bar>" by (simp add: abs_mult)
    also have "\<dots> \<le> (S * u) * 1" using a b u0 Su by (intro mult_mono) simp_all
    finally show ?thesis by simp
  qed
  have split: "sh * qh - S * q = (sh - S) * q + S * (qh - q) + (sh - S) * (qh - q)"
    by (simp add: algebra_simps)
  have prod: "\<bar>sh * qh - S * q\<bar> \<le> 3 * (S * u)"
    unfolding split using e1 e2 e3 by linarith
  have Sq: "0 \<le> S * q" "S * q \<le> S"
    using S1 q0 q1 by (simp_all add: mult_left_le)
  have Su1: "S * u \<le> S" using S1 u0 by (simp add: mult_left_le)
  have bnd: "\<bar>sh * qh\<bar> \<le> 4 * S" using prod Sq Su1 by linarith
  have S4: "1 \<le> 4 * S" using S1 by linarith
  have c: "\<bar>ph - sh * qh\<bar> \<le> 4 * (S * u)"
    using to_double_error_small [OF bnd S4] by (simp add: ph_def u_def)
  have total: "\<bar>ph - S * q\<bar> \<le> 7 * (S * u)" using prod c by linarith
  have "of_int (s * mw) \<le> (2 ^ 49 :: rat)"
    using small by (metis of_int_le_iff of_int_numeral of_int_power)
  then have "S * of_int mw \<le> 2 ^ 49" by (simp add: S_def)
  then have "S * of_int mw * u \<le> 2 ^ 49 * u" using u0 by (intro mult_right_mono) simp_all
  then have "S * u * of_int mw \<le> 1 / 8" by (simp add: u_def mult.commute mult.left_commute)
  then have "8 * (S * u) * of_int mw \<le> 1" by simp
  then have eight: "8 * (S * u) \<le> 1 / of_int mw"
    using mw by (simp add: pos_le_divide_eq)
  have Spos: "0 < S * u" using S1 u0 by simp
  have delta: "\<bar>ph - S * q\<bar> < 1 / of_int mw" using total eight Spos by linarith
  define k where "k = (s * v) div mw"
  define r where "r = (s * v) mod mw"
  have kr: "s * v = k * mw + r" by (simp add: k_def r_def)
  have r0: "0 \<le> r" and r1: "r \<le> mw - 1" using mw by (simp_all add: r_def)
  have "S * q = of_int (s * v) / of_int mw" by (simp add: S_def q_def)
  also have "\<dots> = of_int k + of_int r / of_int mw"
    using mw by (simp add: kr add_divide_distrib)
  finally have exact: "S * q = of_int k + of_int r / of_int mw" .
  have f0: "(0::rat) \<le> of_int r / of_int mw" using r0 mw by simp
  have "(of_int r :: rat) \<le> of_int mw - 1" using r1 by (metis of_int_le_iff of_int_diff of_int_1)
  then have "(of_int r :: rat) / of_int mw \<le> (of_int mw - 1) / of_int mw"
    using mw by (intro divide_right_mono) simp_all
  also have "\<dots> = 1 - 1 / of_int mw" using mw by (simp add: diff_divide_distrib)
  finally have f1: "(of_int r :: rat) / of_int mw \<le> 1 - 1 / of_int mw" .
  have inv1: "(1::rat) / of_int mw \<le> 1" using mw by simp
  have d2: "ph - S * q < 1 / of_int mw" "S * q - ph < 1 / of_int mw"
    using delta by (simp_all add: abs_less_iff)
  have up: "ph < of_int k + 1" using d2 exact f1 by linarith
  have km: "(of_int (k - 1) :: rat) = of_int k - 1" by simp
  have lo: "of_int (k - 1) \<le> ph" unfolding km using d2 exact f0 inv1 by linarith
  have fl: "py_int ph = \<lfloor>ph\<rfloor>" using ph0 by (simp add: py_int_def)
  have "ph < of_int (k + 1)" using up by simp
  then have "\<lfloor>ph\<rfloor> < k + 1" by (simp only: floor_less_iff)
  then have "\<lfloor>ph\<rfloor> \<le> k" by simp
  moreover have "k - 1 \<le> \<lfloor>ph\<rfloor>" using lo by (simp only: le_floor_iff)
  ultimately have range: "k - 1 \<le> py_int ph" "py_int ph \<le> k" using fl by simp_all
  have expr: "fmul (to_float s) (true_div v mw) = ph"
    by (simp add: fmul_def to_float_def true_div_def ph_def sh_def qh_def S_def q_def)
  show "py_int (fmul (to_float s) (true_div v mw)) = (s * v) div mw
         \<or> py_int (fmul (to_float s) (true_div v mw)) = (s * v) div mw - 1"
    unfolding expr k_def [symmetric] using range by linarith
  show "0 \<le> py_int (fmul (to_float s) (true_div v mw))"
    unfolding expr using fl ph0 by simp
  have "s * v < s * mw" using s v1 by simp
  then have "k * mw < s * mw" using kr r0 by linarith
  then have "k < s" using mw by (simp add: mult_less_cancel_right)
  then show "py_int (fmul (to_float s) (true_div v mw)) \<le> s - 1"
    unfolding expr using range by linarith
qed

subsection \<open>Tap dispatch\<close>


lemma tap_results_length: "length (tap_results br n cmd info slaves) = length slaves"
  by (induction slaves arbitrary: n) simp_all

lemma tap_results_nth:
  "i < length slaves \<Longrightarrow>
   tap_results br n cmd info slaves ! i
     = result_of (slaves ! i) (br (n + i) (slaves ! i) (cmd (slaves ! i))) (info (slaves ! i))"
proof (induction slaves arbitrary: n i)
  case Nil
  then show ?case by simp
next
  case (Cons s ss)
  show ?case
  proof (cases i)
    case 0
    then show ?thesis by simp
  next
    case (Suc j)
    then show ?thesis using Cons.IH [of j "Suc n"] Cons.prems by simp
  qed
qed

lemma result_of_device: "device (result_of slave oc info) = slave"
  by (simp add: result_of_def split: run_outcome.split)

lemma result_of_ok: "ok (result_of slave oc info) = (\<exists>out err. oc = Completed 0 out err)"
  by (cases oc) (simp_all add: result_of_def)

lemma tap_results_devices: "map device (tap_results br n cmd info slaves) = slaves"
  by (induction slaves arbitrary: n) (simp_all add: result_of_device)

lemma slave_size_of_cached:
  "slave_screen_sizes st slave = Some sz \<Longrightarrow> slave_size_of br st slave = (Inr sz, st)"
  by (simp add: slave_size_of_def)

lemma tap_slaves_cached:
  assumes "\<forall>s\<in>set slaves. slave_screen_sizes st s \<noteq> None"
    and "rx = true_div x (width m)" and "ry = true_div y (height m)"
  shows "tap_slaves br x y rx ry slaves st rs
           = (Inr (rs @ tap_results br (length (sent st)) (slave_tap st m x y) (slave_info st m x y) slaves),
              st\<lparr>sent := sent st @ map (\<lambda>s. (s, slave_tap st m x y s)) slaves\<rparr>)"
  using assms(1)
proof (induction slaves arbitrary: st rs)
  case Nil
  show ?case by simp
next
  case (Cons slave rest)
  from Cons.prems obtain sz where c: "slave_screen_sizes st slave = Some sz" by auto
  let ?cmd = "slave_tap st m x y slave"
  let ?st1 = "st\<lparr>sent := sent st @ [(slave, ?cmd)]\<rparr>"
  have same: "slave_tap ?st1 m x y = slave_tap st m x y" "slave_info ?st1 m x y = slave_info st m x y"
    by (simp_all add: slave_tap_def slave_info_def fun_eq_iff)
  have pre: "\<forall>s\<in>set rest. slave_screen_sizes ?st1 s \<noteq> None"
    using Cons.prems by simp
  have ih: "tap_slaves br x y rx ry rest ?st1 rs'
           = (Inr (rs' @ tap_results br (Suc (length (sent st))) (slave_tap st m x y) (slave_info st m x y) rest),
              st\<lparr>sent := sent st @ (slave, ?cmd) # map (\<lambda>s. (s, slave_tap st m x y s)) rest\<rparr>)" for rs'
    using Cons.IH [OF pre, of rs'] same by simp
  show ?case
  proof (cases "width sz > 0 \<and> height sz > 0")
    case True
    then have cmd: "?cmd = InputTap (clamp (py_int (fmul (to_float (width sz)) rx)) (width sz))
                                    (clamp (py_int (fmul (to_float (height sz)) ry)) (height sz))"
      using c assms(2,3) by (simp add: slave_tap_def mapped_tap_def)
    have info: "slave_info st m x y slave
                  = Some ((clamp (py_int (fmul (to_float (width sz)) rx)) (width sz),
                           clamp (py_int (fmul (to_float (height sz)) ry)) (height sz)), (width sz, height sz))"
      using True c assms(2,3) by (simp add: slave_info_def mapped_tap_def)
    show ?thesis
      using True c ih cmd info
      by (simp add: slave_size_of_cached run_def Let_def)
  next
    case False
    then have cmd: "?cmd = InputTap x y"
      using c by (auto simp: slave_tap_def mapped_tap_def)
    have info: "slave_info st m x y slave = None"
      using False c by (auto simp: slave_info_def)
    have f: "(0 < width sz \<and> 0 < height sz) = False"
      using False by simp
    show ?thesis
      using c ih cmd info
      by (simp add: slave_size_of_cached run_def Let_def f)
  qed
qed

lemma mirror_tap_cached:
  assumes "master_screen_size st = Some m" and "width m > 0" and "height m \<noteq> 0"
    and "\<forall>s\<in>set (slave_devices st). slave_screen_sizes st s \<noteq> None"
  shows "mirror_tap br st x y
           = (Inr (tap_results br (Suc (length (sent st))) (slave_tap st m x y) (slave_info st m x y)
                     (slave_devices st)),
              st\<lparr>sent := sent st @ (master_device st, InputTap x y)
                        # map (\<lambda>s. (s, slave_tap st m x y s)) (slave_devices st)\<rparr>)"
proof -
  let ?st2 = "st\<lparr>sent := sent st @ [(master_device st, InputTap x y)]\<rparr>"
  have g: "get_master_screen_size br st = (m, st)"
    using assms(1,2) by (simp add: get_master_screen_size_def)
  have same: "slave_tap ?st2 m x y = slave_tap st m x y" "slave_info ?st2 m x y = slave_info st m x y"
    by (simp_all add: slave_tap_def slave_info_def fun_eq_iff)
  have pre: "\<forall>s\<in>set (slave_devices st). slave_screen_sizes ?st2 s \<noteq> None"
    using assms(4) by simp
  have t: "tap_slaves br x y (true_div x (width m)) (true_div y (height m))
             (slave_devices st) ?st2 []
           = (Inr (tap_results br (Suc (length (sent st))) (slave_tap st m x y) (slave_info st m x y)
                     (slave_devices st)),
              st\<lparr>sent := sent st @ (master_device st, InputTap x y)
                        # map (\<lambda>s. (s, slave_tap st m x y s)) (slave_devices st)\<rparr>)"
    using tap_slaves_cached [where st = ?st2 and slaves = "slave_devices st" and m = m and x = x
            and y = y and br = br and rs = "[]", OF pre refl refl] same
    by simp
  show ?thesis
    using g assms(2,3) t by (simp add: mirror_tap_def run_def Let_def)
qed

lemma clamp_id: "0 \<le> v \<Longrightarrow> v \<le> bound - 1 \<Longrightarrow> clamp v bound = v"
  by (simp add: clamp_def)

lemma clamp_in_bounds: "0 < bound \<Longrightarrow> 0 \<le> clamp v bound \<and> clamp v bound \<le> bound - 1"
  by (simp add: clamp_def)

lemma get_screen_info_sent: "\<exists>post. snd (get_screen_info br sn dev) = sn @ post"
  by (simp add: get_screen_info_def execute_command_def run_def case_prod_beta Let_def
           split: run_outcome.split option.split sum.split)

lemma slave_size_of_sent: "\<exists>post. sent (snd (slave_size_of br st slave)) = sent st @ post"
proof (cases "slave_screen_sizes st slave")
  case None
  obtain r sn where g: "get_screen_info br (sent st) slave = (r, sn)"
    by (cases "get_screen_info br (sent st) slave")
  obtain post where "sn = sent st @ post"
    using get_screen_info_sent [of br "sent st" slave] g by auto
  then show ?thesis using None g by (cases r) (simp_all add: slave_size_of_def)
next
  case (Some sz)
  then show ?thesis by (simp add: slave_size_of_def)
qed

lemma tap_slaves_sent: "\<exists>post. sent (snd (tap_slaves br x y rx ry slaves st rs)) = sent st @ post"
proof (induction slaves arbitrary: st rs)
  case Nil
  show ?case by simp
next
  case (Cons slave rest)
  obtain r st1 where s: "slave_size_of br st slave = (r, st1)"
    by (cases "slave_size_of br st slave")
  obtain p1 where p1: "sent st1 = sent st @ p1"
    using slave_size_of_sent [of br st slave] s by auto
  show ?case
  proof (cases r)
    case (Inl e)
    then show ?thesis using s p1 by simp
  next
    case (Inr sz)
    have step: "\<exists>post. sent (snd (tap_slaves br x y rx ry rest (st1\<lparr>sent := sent st1 @ [c]\<rparr>) rs'))
                        = sent st @ post" for c rs'
      using Cons.IH [of "st1\<lparr>sent := sent st1 @ [c]\<rparr>" rs'] p1 by auto
    show ?thesis using s Inr step by (simp add: Let_def run_def)
  qed
qed

lemma tap_slaves_devices:
  "tap_slaves br x y rx ry slaves st rs = (Inr rs', st') \<Longrightarrow> map device rs' = map device rs @ slaves"
proof (induction slaves arbitrary: st rs)
  case Nil
  then show ?case by simp
next
  case (Cons slave rest)
  obtain r st1 where s: "slave_size_of br st slave = (r, st1)"
    by (cases "slave_size_of br st slave")
  show ?case
  proof (cases r)
    case (Inl e)
    then show ?thesis using s Cons.prems by simp
  next
    case (Inr sz)
    show ?thesis
    proof (cases "width sz > 0 \<and> height sz > 0")
      case True
      then show ?thesis
        using s Inr Cons.prems Cons.IH by (auto simp: Let_def run_def result_of_device)
    next
      case False
      then have f: "(0 < width sz \<and> 0 < height sz) = False" by simp
      show ?thesis
        using s Inr Cons.prems Cons.IH by (auto simp: Let_def run_def result_of_device f)
    qed
  qed
qed

lemma mirror_tap_master_first:
  "\<exists>post. sent (snd (mirror_tap br st x y))
            = sent (snd (get_master_screen_size br st)) @ (master_device st, InputTap x y) # post"
proof -
  obtain m st1 where g: "get_master_screen_size br st = (m, st1)"
    by (cases "get_master_screen_size br st")
  have md: "master_device st1 = master_device st"
    using get_master_screen_size_keeps [of st br] g by (simp add: keeps_def)
  let ?st2 = "st1\<lparr>sent := sent st1 @ [(master_device st, InputTap x y)]\<rparr>"
  have a: "\<exists>post. sent (snd (tap_slaves br x y rx ry slaves ?st2 []))
                     = sent st1 @ (master_device st, InputTap x y) # post" for rx ry slaves
    using tap_slaves_sent [of br x y rx ry slaves ?st2 "[]"] by auto
  have b: "\<exists>post. sent (snd (execute_on_slaves br ?st2 cmd))
                     = sent st1 @ (master_device st, InputTap x y) # post" for cmd
    using execute_on_slaves_sent [of br ?st2 cmd] by simp
  show ?thesis
    using g md a b by (simp add: mirror_tap_def Let_def run_def case_prod_beta)
qed

lemma mirror_tap_devices:
  assumes "fst (mirror_tap br st x y) = Inr rs"
  shows "map device rs = slave_devices st"
proof -
  obtain m st1 where g: "get_master_screen_size br st = (m, st1)"
    by (cases "get_master_screen_size br st")
  have sd: "slave_devices st1 = slave_devices st"
    using get_master_screen_size_keeps [of st br] g by (simp add: keeps_def)
  let ?st2 = "st1\<lparr>sent := sent st1 @ [(master_device st1, InputTap x y)]\<rparr>"
  show ?thesis
  proof (cases "width m = 0 \<or> height m = 0")
    case True
    have "map device (fst (execute_on_slaves br ?st2 (InputTap x y))) = slave_devices st"
      using slaves_loop_devices [of br "InputTap x y" "slave_devices st" "sent ?st2" "[]"] sd
      by (simp add: execute_on_slaves_def case_prod_beta)
    then show ?thesis
      using assms g True sd
      by (auto simp: mirror_tap_def Let_def run_def case_prod_beta split: if_splits)
  next
    case False
    then have f: "(width m = 0 \<or> height m = 0) = False" by simp
    obtain r st' where t: "tap_slaves br x y (true_div x (width m)) (true_div y (height m))
             (slave_devices st) ?st2 [] = (r, st')"
      by (cases "tap_slaves br x y (true_div x (width m)) (true_div y (height m))
             (slave_devices st) ?st2 []")
    have "r = Inr rs"
      using assms g f sd t by (simp add: mirror_tap_def Let_def run_def)
    then show ?thesis using tap_slaves_devices [of br x y _ _ "slave_devices st" ?st2 "[]" rs st'] t
      by simp
  qed
qed

lemma slave_size_of_frame:
  "d \<noteq> slave \<Longrightarrow> slave_screen_sizes (snd (slave_size_of br st slave)) d = slave_screen_sizes st d"
  by (simp add: slave_size_of_def split: option.split prod.split sum.split)

lemma tap_slaves_frame:
  "d \<notin> set slaves \<Longrightarrow>
   slave_screen_sizes (snd (tap_slaves br x y rx ry slaves st rs)) d = slave_screen_sizes st d"
proof (induction slaves arbitrary: st rs)
  case Nil
  show ?case by simp
next
  case (Cons slave rest)
  obtain r st1 where s: "slave_size_of br st slave = (r, st1)"
    by (cases "slave_size_of br st slave")
  have f1: "slave_screen_sizes st1 d = slave_screen_sizes st d"
    using slave_size_of_frame [of d slave br st] s Cons.prems by simp
  show ?case
  proof (cases r)
    case (Inl e)
    then show ?thesis using s f1 by simp
  next
    case (Inr sz)
    have step: "slave_screen_sizes (snd (tap_slaves br x y rx ry rest (st1\<lparr>sent := sn\<rparr>) rs')) d
                  = slave_screen_sizes st d" for sn rs'
      using Cons.IH [of "st1\<lparr>sent := sn\<rparr>" rs'] Cons.prems f1 by simp
    show ?thesis using s Inr step by (simp add: Let_def case_prod_beta)
  qed
qed

lemma slave_size_of_result:
  assumes "slave_size_of br st slave = (Inr szh, st1)"
    and "slave_screen_sizes st1 slave = Some sz"
  shows "szh = sz"
proof (cases "slave_screen_sizes st slave")
  case None
  obtain r sn where g: "get_screen_info br (sent st) slave = (r, sn)"
    by (cases "get_screen_info br (sent st) slave")
  show ?thesis
    using assms None g by (cases r) (auto simp: slave_size_of_def split: if_splits)
next
  case (Some c)
  then show ?thesis using assms by (simp add: slave_size_of_def)
qed

lemma tap_slaves_resolved:
  assumes "tap_slaves br x y rx ry slaves st rs = (Inr rs', st')"
    and "s \<in> set slaves" and "slave_screen_sizes st' s = Some sz"
    and "width sz > 0" and "height sz > 0"
  shows "(s, InputTap (clamp (py_int (fmul (to_float (width sz)) rx)) (width sz))
                      (clamp (py_int (fmul (to_float (height sz)) ry)) (height sz)))
           \<in> set (drop (length (sent st)) (sent st'))"
  using assms(1,2)
proof (induction slaves arbitrary: st rs)
  case Nil
  then show ?case by simp
next
  case (Cons slave rest)
  let ?cmd = "InputTap (clamp (py_int (fmul (to_float (width sz)) rx)) (width sz))
                       (clamp (py_int (fmul (to_float (height sz)) ry)) (height sz))"
  obtain r st1 where so: "slave_size_of br st slave = (r, st1)"
    by (cases "slave_size_of br st slave")
  obtain szh where r: "r = Inr szh"
    using Cons.prems(1) so by (cases r) simp_all
  obtain p1 where p1: "sent st1 = sent st @ p1"
    using slave_size_of_sent [of br st slave] so by auto
  define c where "c = (if width szh > 0 \<and> height szh > 0
       then InputTap (clamp (py_int (fmul (to_float (width szh)) rx)) (width szh))
                     (clamp (py_int (fmul (to_float (height szh)) ry)) (height szh))
       else InputTap x y)"
  define st2 where "st2 = st1\<lparr>sent := sent st1 @ [(slave, c)]\<rparr>"
  obtain rs2 where t: "tap_slaves br x y rx ry rest st2 rs2 = (Inr rs', st')"
    using Cons.prems(1) so r unfolding c_def st2_def
    by (cases "width szh > 0 \<and> height szh > 0") (auto simp: Let_def run_def)
  obtain p2 where p2: "sent st' = sent st2 @ p2"
    using tap_slaves_sent [of br x y rx ry rest st2 rs2] t by auto
  have len: "length (sent st) \<le> length (sent st2)"
    using p1 by (simp add: st2_def)
  show ?case
  proof (cases "s \<in> set rest")
    case True
    have "(s, ?cmd) \<in> set (drop (length (sent st2)) (sent st'))"
      using Cons.IH [OF t True] .
    then show ?thesis
      using set_drop_subset_set_drop [OF len, of "sent st'"] by blast
  next
    case False
    then have eq: "s = slave" using Cons.prems(2) by simp
    have "slave_screen_sizes st' s = slave_screen_sizes st2 s"
      using tap_slaves_frame [OF False, of br x y rx ry st2 rs2] t by simp
    then have "slave_screen_sizes st1 slave = Some sz"
      using assms(3) eq by (simp add: st2_def)
    then have "szh = sz"
      using slave_size_of_result [of br st slave szh st1 sz] so r by simp
    then have "c = ?cmd" using assms(4,5) by (simp add: c_def)
    then have "sent st' = sent st @ p1 @ (s, ?cmd) # p2"
      using p2 p1 eq by (simp add: st2_def)
    then show ?thesis by simp
  qed
qed

lemma get_master_screen_size_sent:
  "\<exists>post. sent (snd (get_master_screen_size br st)) = sent st @ post"
  by (simp add: get_master_screen_size_def run_def
           split: option.split run_outcome.split sum.split)

lemma mirror_tap_resolved:
  assumes "get_master_screen_size br st = (m, st1)" and "width m \<noteq> 0" and "height m \<noteq> 0"
    and "mirror_tap br st x y = (Inr rs, st')"
    and "s \<in> set (slave_devices st)" and "slave_screen_sizes st' s = Some sz"
    and "width sz > 0" and "height sz > 0"
  shows "(s, InputTap (clamp (py_int (fmul (to_float (width sz)) (true_div x (width m)))) (width sz))
                      (clamp (py_int (fmul (to_float (height sz)) (true_div y (height m)))) (height sz)))
           \<in> set (drop (length (sent st)) (sent st'))"
proof -
  let ?st2 = "st1\<lparr>sent := sent st1 @ [(master_device st1, InputTap x y)]\<rparr>"
  have sd: "slave_devices st1 = slave_devices st"
    using get_master_screen_size_keeps [of st br] assms(1) by (simp add: keeps_def)
  have f: "(width m = 0 \<or> height m = 0) = False" using assms(2,3) by simp
  have t: "tap_slaves br x y (true_div x (width m)) (true_div y (height m))
             (slave_devices st) ?st2 [] = (Inr rs, st')"
    using assms(1,4) sd by (simp add: mirror_tap_def Let_def run_def f)
  have "length (sent st) \<le> length (sent st1)"
    using get_master_screen_size_sent [of br st] assms(1) by auto
  then have len: "length (sent st) \<le> length (sent ?st2)" by simp
  have "(s, InputTap (clamp (py_int (fmul (to_float (width sz)) (true_div x (width m)))) (width sz))
                      (clamp (py_int (fmul (to_float (height sz)) (true_div y (height m)))) (height sz)))
           \<in> set (drop (length (sent ?st2)) (sent st'))"
    using tap_slaves_resolved [OF t assms(5,6,7,8)] .
  then show ?thesis
    using set_drop_subset_set_drop [OF len, of "sent st'"] by blast
qed

text \<open>
  C1. The claim: every slave with a resolved geometry receives the tap at
  \<^verbatim>\<open>(int(slave.width * x/master.width), int(slave.height * y/master.height))\<close>. The code
  clamps that point into the slave's screen: for a tap at \<open>(1080, 1200)\<close> on a master of
  1080x2400 the slave of 720x1600 is tapped at \<open>(719, 800)\<close>, where the expression of the
  claim gives \<open>(720, 800)\<close>.
\<close>

theorem slave_tap_is_clamped:
  "sent (snd (mirror_tap phones two_phones 1080 1200))
     = [(''M'', WmSize), (''S1'', WmSize), (''M'', InputTap 1080 1200), (''S1'', InputTap 719 800)]
   \<and> (py_int (fmul (to_float 720) (true_div 1080 1080)),
       py_int (fmul (to_float 1600) (true_div 1200 2400))) = (720, 800)"
  by code_simp

text \<open>
  C1, as the code has it. \<^verbatim>\<open>mirror_tap\<close> sends the tap to the master at the input point
  unmodified, as its first command after the lookup of the master geometry. With a
  resolved master geometry, when \<^verbatim>\<open>mirror_tap\<close> returns, every slave with a resolved
  geometry (a size of positive width and height) has been sent a tap at
  \<^verbatim>\<open>(int(slave.width * (x / master.width)), int(slave.height * (y / master.height)))\<close>,
  the quotient and the product each rounded to a double as the interpreter computes them,
  clamped into \<open>[0, width - 1] \<times> [0, height - 1]\<close> of the slave. With the slaves' sizes in
  the cache, \<^verbatim>\<open>mirror_tap\<close> does return, and the commands it sends are the tap on the
  master followed by one tap per slave, in list order. For a coordinate inside the
  master's screen (\<open>0 \<le> x < master.width\<close>) and sizes with
  \<open>slave.width * master.width \<le> 2 ^ 49\<close> the clamp changes nothing, and the coordinate sent
  is the proportional position \<open>\<lfloor>slave.width * x / master.width\<rfloor>\<close> or, by the rounding of
  the two float operations, one less.
\<close>

theorem tap_reaches_master_and_slaves:
  "(\<exists>post. sent (snd (mirror_tap br st x y))
             = sent (snd (get_master_screen_size br st)) @ (master_device st, InputTap x y) # post)
   \<and> (width (fst (get_master_screen_size br st)) \<noteq> 0
       \<and> height (fst (get_master_screen_size br st)) \<noteq> 0
       \<and> fst (mirror_tap br st x y) = Inr rs \<longrightarrow>
       (\<forall>s\<in>set (slave_devices st). \<forall>sz.
          slave_screen_sizes (snd (mirror_tap br st x y)) s = Some sz \<and> width sz > 0 \<and> height sz > 0 \<longrightarrow>
          (s, InputTap
                (clamp (py_int (fmul (to_float (width sz))
                          (true_div x (width (fst (get_master_screen_size br st))))))
                       (width sz))
                (clamp (py_int (fmul (to_float (height sz))
                          (true_div y (height (fst (get_master_screen_size br st))))))
                       (height sz)))
            \<in> set (drop (length (sent st)) (sent (snd (mirror_tap br st x y))))))
   \<and> (master_screen_size st = Some m \<and> width m > 0 \<and> height m \<noteq> 0
       \<and> (\<forall>s\<in>set (slave_devices st). slave_screen_sizes st s \<noteq> None) \<longrightarrow>
       (\<exists>rs'. fst (mirror_tap br st x y) = Inr rs')
       \<and> sent (snd (mirror_tap br st x y))
           = sent st @ (master_device st, InputTap x y)
               # map (\<lambda>s. (s, slave_tap st m x y s)) (slave_devices st)
       \<and> (\<forall>s sz. slave_screen_sizes st s = Some sz \<and> width sz > 0 \<and> height sz > 0 \<longrightarrow>
             slave_tap st m x y s
               = InputTap (clamp (py_int (fmul (to_float (width sz)) (true_div x (width m))))
                                 (width sz))
                          (clamp (py_int (fmul (to_float (height sz)) (true_div y (height m))))
                                 (height sz))))
   \<and> (0 < bound \<longrightarrow> 0 \<le> clamp v bound \<and> clamp v bound \<le> bound - 1)
   \<and> (0 < sdim \<and> 0 \<le> pos \<and> pos < mdim \<and> sdim * mdim \<le> 2 ^ 49 \<longrightarrow>
       clamp (py_int (fmul (to_float sdim) (true_div pos mdim))) sdim
         = py_int (fmul (to_float sdim) (true_div pos mdim))
       \<and> (py_int (fmul (to_float sdim) (true_div pos mdim)) = (sdim * pos) div mdim
          \<or> py_int (fmul (to_float sdim) (true_div pos mdim)) = (sdim * pos) div mdim - 1))"
proof (intro conjI impI ballI allI)
  show "\<exists>post. sent (snd (mirror_tap br st x y))
             = sent (snd (get_master_screen_size br st)) @ (master_device st, InputTap x y) # post"
    by (rule mirror_tap_master_first)
next
  fix s sz
  assume a: "width (fst (get_master_screen_size br st)) \<noteq> 0
       \<and> height (fst (get_master_screen_size br st)) \<noteq> 0
       \<and> fst (mirror_tap br st x y) = Inr rs"
    and s: "s \<in> set (slave_devices st)"
    and c: "slave_screen_sizes (snd (mirror_tap br st x y)) s = Some sz \<and> width sz > 0 \<and> height sz > 0"
  have g: "get_master_screen_size br st
             = (fst (get_master_screen_size br st), snd (get_master_screen_size br st))"
    by simp
  have t: "mirror_tap br st x y = (Inr rs, snd (mirror_tap br st x y))"
    using a by (metis prod.collapse)
  show "(s, InputTap
                (clamp (py_int (fmul (to_float (width sz))
                          (true_div x (width (fst (get_master_screen_size br st))))))
                       (width sz))
                (clamp (py_int (fmul (to_float (height sz))
                          (true_div y (height (fst (get_master_screen_size br st))))))
                       (height sz)))
            \<in> set (drop (length (sent st)) (sent (snd (mirror_tap br st x y))))"
    using mirror_tap_resolved [OF g _ _ t s] a c by blast
next
  assume a: "master_screen_size st = Some m \<and> width m > 0 \<and> height m \<noteq> 0
       \<and> (\<forall>s\<in>set (slave_devices st). slave_screen_sizes st s \<noteq> None)"
  have e: "mirror_tap br st x y
           = (Inr (tap_results br (Suc (length (sent st))) (slave_tap st m x y) (slave_info st m x y)
                     (slave_devices st)),
              st\<lparr>sent := sent st @ (master_device st, InputTap x y)
                        # map (\<lambda>s. (s, slave_tap st m x y s)) (slave_devices st)\<rparr>)"
    using a mirror_tap_cached [of st m br x y] by blast
  show "\<exists>rs'. fst (mirror_tap br st x y) = Inr rs'" using e by simp
  show "sent (snd (mirror_tap br st x y))
           = sent st @ (master_device st, InputTap x y)
               # map (\<lambda>s. (s, slave_tap st m x y s)) (slave_devices st)"
    using e by simp
next
  fix s sz
  assume "slave_screen_sizes st s = Some sz \<and> width sz > 0 \<and> height sz > 0"
  then show "slave_tap st m x y s
               = InputTap (clamp (py_int (fmul (to_float (width sz)) (true_div x (width m))))
                                 (width sz))
                          (clamp (py_int (fmul (to_float (height sz)) (true_div y (height m))))
                                 (height sz))"
    by (simp add: slave_tap_def mapped_tap_def)
next
  assume "0 < bound"
  then show "0 \<le> clamp v bound" and "clamp v bound \<le> bound - 1"
    by (simp_all add: clamp_def)
next
  assume h: "0 < sdim \<and> 0 \<le> pos \<and> pos < mdim \<and> sdim * mdim \<le> 2 ^ 49"
  note b = scaled_coordinate [of sdim pos mdim]
  show "clamp (py_int (fmul (to_float sdim) (true_div pos mdim))) sdim
         = py_int (fmul (to_float sdim) (true_div pos mdim))"
    using h b(2,3) by (intro clamp_id) simp_all
  show "py_int (fmul (to_float sdim) (true_div pos mdim)) = (sdim * pos) div mdim
          \<or> py_int (fmul (to_float sdim) (true_div pos mdim)) = (sdim * pos) div mdim - 1"
    using h b(1) by simp
qed

theorem tap_reaches_master_and_slaves_witness:
  "master_screen_size two_phones = Some \<lparr>width = 1080, height = 2400, is_override = Some False\<rparr>
   \<and> slave_devices two_phones = [''S1'']
   \<and> slave_screen_sizes two_phones ''S1'' = Some \<lparr>width = 720, height = 1600, is_override = Some False\<rparr>
   \<and> master_device two_phones = ''M''
   \<and> sent (snd (mirror_tap phones two_phones 540 1200))
       = sent two_phones @ [(''M'', InputTap 540 1200), (''S1'', InputTap 360 800)]
   \<and> sent (snd (mirror_tap phones two_phones 39 87))
       = sent two_phones @ [(''M'', InputTap 39 87), (''S1'', InputTap 25 57)]"
proof -
  let ?m = "\<lparr>width = 1080, height = 2400, is_override = Some False\<rparr>"
  let ?sz = "\<lparr>width = 720, height = 1600, is_override = Some False\<rparr>"
  have m: "master_screen_size two_phones = Some ?m" by code_simp
  have d: "slave_devices two_phones = [''S1'']" by code_simp
  have c: "slave_screen_sizes two_phones ''S1'' = Some ?sz" by code_simp
  have n: "master_device two_phones = ''M''" by code_simp
  have v1: "clamp (py_int (fmul (to_float (width ?sz)) (true_div 540 (width ?m)))) (width ?sz) = 360"
           "clamp (py_int (fmul (to_float (height ?sz)) (true_div 1200 (height ?m)))) (height ?sz) = 800"
    by code_simp+
  have v2: "clamp (py_int (fmul (to_float (width ?sz)) (true_div 39 (width ?m)))) (width ?sz) = 25"
           "clamp (py_int (fmul (to_float (height ?sz)) (true_div 87 (height ?m)))) (height ?sz) = 57"
    by code_simp+
  have pre: "master_screen_size two_phones = Some ?m \<and> width ?m > 0 \<and> height ?m \<noteq> 0
       \<and> (\<forall>s\<in>set (slave_devices two_phones). slave_screen_sizes two_phones s \<noteq> None)"
    using m d c by simp
  note T1 = tap_reaches_master_and_slaves
              [where br = phones and st = two_phones and x = 540 and y = 1200 and m = ?m,
               THEN conjunct2, THEN conjunct2, THEN conjunct1, rule_format, OF pre]
  note T2 = tap_reaches_master_and_slaves
              [where br = phones and st = two_phones and x = 39 and y = 87 and m = ?m,
               THEN conjunct2, THEN conjunct2, THEN conjunct1, rule_format, OF pre]
  have p: "slave_screen_sizes two_phones ''S1'' = Some ?sz \<and> width ?sz > 0 \<and> height ?sz > 0"
    using c by simp
  have i1: "slave_tap two_phones ?m 540 1200 ''S1'' = InputTap 360 800"
    using T1 [THEN conjunct2, THEN conjunct2, rule_format, OF p] v1 by simp
  have i2: "slave_tap two_phones ?m 39 87 ''S1'' = InputTap 25 57"
    using T2 [THEN conjunct2, THEN conjunct2, rule_format, OF p] v2 by simp
  have s1: "sent (snd (mirror_tap phones two_phones 540 1200))
       = sent two_phones @ [(''M'', InputTap 540 1200), (''S1'', InputTap 360 800)]"
    using T1 [THEN conjunct2, THEN conjunct1] d n i1 by simp
  have s2: "sent (snd (mirror_tap phones two_phones 39 87))
       = sent two_phones @ [(''M'', InputTap 39 87), (''S1'', InputTap 25 57)]"
    using T2 [THEN conjunct2, THEN conjunct1] d n i2 by simp
  show ?thesis using m d c n s1 s2 by simp
qed

text \<open>
  C5. The claim: a tap dispatched to one master and three slaves, of which one slave's
  command times out, gives a result set of size 4 with one failed entry. The list of
  results that \<^verbatim>\<open>mirror_tap\<close> builds has one entry per slave and none for the master:
  its size is 3.
\<close>

theorem tap_results_leave_master_out:
  "map_sum id (map (\<lambda>r. (device r, ok r))) (fst (mirror_tap phones_timeout timeout_session 540 1200))
     = Inr [(''S1'', True), (''S2'', False), (''S3'', True)]"
  by code_simp

text \<open>
  C5, as the code has it. Whatever the outcomes of the commands (exit status, timeout,
  any other exception of the call):
  \<^item> once the master geometry has been looked up, the first command of \<^verbatim>\<open>mirror_tap\<close>
    is the tap on the master;
  \<^item> when \<^verbatim>\<open>mirror_tap\<close> returns, its list of results has exactly one entry per slave,
    in list order, and none for the master;
  \<^item> with a resolved master geometry and the slaves' sizes in the cache, \<^verbatim>\<open>mirror_tap\<close>
    returns, one tap has been sent to every slave after the one to the master, and the
    entry of a slave reports success exactly when that slave's own command exited
    with status 0.
\<close>

theorem tap_dispatch_independent:
  "(\<exists>post. sent (snd (mirror_tap br st x y))
             = sent (snd (get_master_screen_size br st)) @ (master_device st, InputTap x y) # post)
   \<and> (\<forall>rs. fst (mirror_tap br st x y) = Inr rs \<longrightarrow> map device rs = slave_devices st)
   \<and> (master_screen_size st = Some m \<and> width m > 0 \<and> height m \<noteq> 0
       \<and> (\<forall>s\<in>set (slave_devices st). slave_screen_sizes st s \<noteq> None) \<longrightarrow>
       (\<exists>rs. fst (mirror_tap br st x y) = Inr rs
          \<and> length rs = length (slave_devices st)
          \<and> (\<forall>i<length (slave_devices st).
                ok (rs ! i) = (\<exists>out err. br (length (sent st) + 1 + i) (slave_devices st ! i)
                                           (slave_tap st m x y (slave_devices st ! i))
                                         = Completed 0 out err)))
       \<and> sent (snd (mirror_tap br st x y))
           = sent st @ (master_device st, InputTap x y)
               # map (\<lambda>s. (s, slave_tap st m x y s)) (slave_devices st))"
proof (intro conjI allI impI)
  show "\<exists>post. sent (snd (mirror_tap br st x y))
             = sent (snd (get_master_screen_size br st)) @ (master_device st, InputTap x y) # post"
    by (rule mirror_tap_master_first)
next
  fix rs
  assume "fst (mirror_tap br st x y) = Inr rs"
  then show "map device rs = slave_devices st" by (rule mirror_tap_devices)
next
  assume a: "master_screen_size st = Some m \<and> width m > 0 \<and> height m \<noteq> 0
       \<and> (\<forall>s\<in>set (slave_devices st). slave_screen_sizes st s \<noteq> None)"
  let ?rs = "tap_results br (Suc (length (sent st))) (slave_tap st m x y) (slave_info st m x y)
               (slave_devices st)"
  have e: "mirror_tap br st x y
           = (Inr ?rs, st\<lparr>sent := sent st @ (master_device st, InputTap x y)
                        # map (\<lambda>s. (s, slave_tap st m x y s)) (slave_devices st)\<rparr>)"
    using a mirror_tap_cached [of st m br x y] by blast
  have "\<forall>i<length (slave_devices st).
                ok (?rs ! i) = (\<exists>out err. br (length (sent st) + 1 + i) (slave_devices st ! i)
                                           (slave_tap st m x y (slave_devices st ! i))
                                         = Completed 0 out err)"
    by (simp add: tap_results_nth result_of_ok)
  then show "\<exists>rs. fst (mirror_tap br st x y) = Inr rs
          \<and> length rs = length (slave_devices st)
          \<and> (\<forall>i<length (slave_devices st).
                ok (rs ! i) = (\<exists>out err. br (length (sent st) + 1 + i) (slave_devices st ! i)
                                           (slave_tap st m x y (slave_devices st ! i))
                                         = Completed 0 out err))"
    using e by (simp add: tap_results_length)
  show "sent (snd (mirror_tap br st x y))
           = sent st @ (master_device st, InputTap x y)
               # map (\<lambda>s. (s, slave_tap st m x y s)) (slave_devices st)"
    using e by simp
qed

theorem tap_dispatch_independent_witness:
  "master_screen_size timeout_session = Some \<lparr>width = 1080, height = 2400, is_override = Some False\<rparr>
   \<and> slave_devices timeout_session = [''S1'', ''S2'', ''S3'']
   \<and> slave_screen_sizes timeout_session ''S1'' \<noteq> None
   \<and> slave_screen_sizes timeout_session ''S2'' \<noteq> None
   \<and> slave_screen_sizes timeout_session ''S3'' \<noteq> None
   \<and> (\<exists>rs. fst (mirror_tap phones_timeout timeout_session 540 1200) = Inr rs \<and> length rs = 3
          \<and> map device rs = [''S1'', ''S2'', ''S3''])"
proof -
  let ?m = "\<lparr>width = 1080, height = 2400, is_override = Some False\<rparr>"
  have m: "master_screen_size timeout_session = Some ?m" by code_simp
  have d: "slave_devices timeout_session = [''S1'', ''S2'', ''S3'']" by code_simp
  have c1: "slave_screen_sizes timeout_session ''S1'' \<noteq> None" by code_simp
  have c2: "slave_screen_sizes timeout_session ''S2'' \<noteq> None" by code_simp
  have c3: "slave_screen_sizes timeout_session ''S3'' \<noteq> None" by code_simp
  have pre: "master_screen_size timeout_session = Some ?m \<and> width ?m > 0 \<and> height ?m \<noteq> 0
       \<and> (\<forall>s\<in>set (slave_devices timeout_session). slave_screen_sizes timeout_session s \<noteq> None)"
    using m d c1 c2 c3 by simp
  note T = tap_dispatch_independent [of phones_timeout timeout_session 540 1200 ?m]
  obtain rs where r: "fst (mirror_tap phones_timeout timeout_session 540 1200) = Inr rs"
      and l: "length rs = length (slave_devices timeout_session)"
    using T pre by blast
  have "map device rs = slave_devices timeout_session"
    using T r by blast
  then show ?thesis using m d c1 c2 c3 r l by simp
qed

subsection \<open>Swipe dispatch\<close>

text \<open>
  C4. The claim: every mapped coordinate sent to a target, for taps and for both ends of
  a swipe, is clamped into the target's screen. \<^verbatim>\<open>mirror_tap\<close> clamps;
  \<^verbatim>\<open>mirror_swipe\<close> does not: a swipe that starts 100 pixels above the master's screen
  reaches the slave with the ordinate \<open>-66\<close>.
\<close>

theorem mirror_swipe_not_clamped:
  "sent (snd (mirror_swipe phones (snd (new_controller phones ''M'' [''S1''])) 540 (- 100) 540 500 300))
     = [(''M'', WmSize), (''S1'', WmSize),
        (''M'', InputSwipe 540 (- 100) 540 500 300),
        (''S1'', InputSwipe 360 (- 66) 360 333 300)]"
  by code_simp

subsection \<open>Classification of press and release\<close>

lemma swipe_slaves_sent:
  "\<exists>post. sent (snd (swipe_slaves br pts ratios duration slaves st)) = sent st @ post"
proof (induction slaves arbitrary: st)
  case Nil
  show ?case by simp
next
  case (Cons slave rest)
  obtain x1 y1 x2 y2 where p: "pts = (x1, y1, x2, y2)" by (cases pts) auto
  obtain a1 b1 a2 b2 where q: "ratios = (a1, b1, a2, b2)" by (cases ratios) auto
  obtain r st1 where s: "slave_size_of br st slave = (r, st1)"
    by (cases "slave_size_of br st slave")
  obtain p1 where p1: "sent st1 = sent st @ p1"
    using slave_size_of_sent [of br st slave] s by auto
  show ?case
  proof (cases r)
    case (Inl e)
    then show ?thesis using s p1 p q by simp
  next
    case (Inr sz)
    have step: "\<exists>post. sent (snd (swipe_slaves br pts ratios duration rest
                                     (st1\<lparr>sent := sent st1 @ [c]\<rparr>))) = sent st @ post" for c
      using Cons.IH [of "st1\<lparr>sent := sent st1 @ [c]\<rparr>"] p1 by auto
    show ?thesis using s Inr step p q by (simp add: Let_def run_def)
  qed
qed

lemma mirror_swipe_master_first:
  "\<exists>post. sent (snd (mirror_swipe br st x1 y1 x2 y2 duration))
            = sent (snd (get_master_screen_size br st))
                @ (master_device st, InputSwipe x1 y1 x2 y2 duration) # post"
proof -
  obtain m st1 where g: "get_master_screen_size br st = (m, st1)"
    by (cases "get_master_screen_size br st")
  have md: "master_device st1 = master_device st"
    using get_master_screen_size_keeps [of st br] g by (simp add: keeps_def)
  let ?c = "(master_device st, InputSwipe x1 y1 x2 y2 duration)"
  let ?st2 = "st1\<lparr>sent := sent st1 @ [?c]\<rparr>"
  have a: "\<exists>post. sent (snd (swipe_slaves br pts ratios d slaves ?st2)) = sent st1 @ ?c # post"
    for pts ratios d slaves
    using swipe_slaves_sent [of br pts ratios d slaves ?st2] by auto
  have b: "\<exists>post. sent (snd (execute_on_slaves br ?st2 cmd)) = sent st1 @ ?c # post" for cmd
    using execute_on_slaves_sent [of br ?st2 cmd] by simp
  show ?thesis
    using g md a b by (simp add: mirror_swipe_def Let_def run_def case_prod_beta)
qed

lemma convert_to_phone_coords_keeps: "keeps st (snd (convert_to_phone_coords br st x y s))"
proof -
  obtain m st1 where g: "get_master_screen_size br st = (m, st1)"
    by (cases "get_master_screen_size br st")
  have k: "keeps st st1" using get_master_screen_size_keeps [of st br] g by simp
  show ?thesis
    using g k
    by (simp add: convert_to_phone_coords_def Let_def case_prod_beta split: option.split prod.split)
qed

lemma on_click_press:
  assumes "running ls" and "is_point_in_window x y (Some s)"
    and "convert_to_phone_coords br st x y s = (Some p, st1)"
  shows "on_click br (Some s) ls st x y Left True
           = (Inr True, [], ls\<lparr>drag_start := Some p, drag_active := True\<rparr>,
              snd (get_master_screen_size br st1))"
  using assms by (simp add: on_click_def)

lemma on_click_release_drag:
  assumes "running ls" and "is_point_in_window x y (Some s)"
    and "drag_active ls" and "drag_start ls = Some (px, py)"
    and "convert_to_phone_coords br st x y s = (Some (qx, qy), st1)"
    and "\<bar>qx - px\<bar> > 10 \<or> \<bar>qy - py\<bar> > 10"
  shows "on_click br (Some s) ls st x y Left False
           = (case fst (mirror_swipe br st1 px py qx qy 300) of
                Inl e \<Rightarrow> (Inl e, [Drag px py qx qy 300], ls,
                          snd (mirror_swipe br st1 px py qx qy 300))
              | Inr u \<Rightarrow> (Inr True, [Drag px py qx qy 300],
                          ls\<lparr>drag_start := None, drag_active := False\<rparr>,
                          snd (mirror_swipe br st1 px py qx qy 300)))"
proof -
  obtain r st2 where m: "mirror_swipe br st1 px py qx qy 300 = (r, st2)"
    by (cases "mirror_swipe br st1 px py qx qy 300")
  show ?thesis
    using assms m
    by (cases r) (simp_all add: on_click_def drag_threshold_def Let_def)
qed

lemma on_click_release_tap:
  assumes "running ls" and "is_point_in_window x y (Some s)"
    and "drag_active ls" and "drag_start ls = Some (px, py)"
    and "convert_to_phone_coords br st x y s = (Some (qx, qy), st1)"
    and "\<not> (\<bar>qx - px\<bar> > 10 \<or> \<bar>qy - py\<bar> > 10)"
  shows "on_click br (Some s) ls st x y Left False
           = (case fst (mirror_tap br (snd (get_master_screen_size br st1)) qx qy) of
                Inl e \<Rightarrow> (Inl e, [Tap qx qy], ls,
                          snd (mirror_tap br (snd (get_master_screen_size br st1)) qx qy))
              | Inr results \<Rightarrow> (Inr True, [Tap qx qy],
                          ls\<lparr>drag_start := None, drag_active := False\<rparr>,
                          snd (mirror_tap br (snd (get_master_screen_size br st1)) qx qy)))"
proof -
  have f: "(\<bar>qx - px\<bar> > 10 \<or> \<bar>qy - py\<bar> > 10) = False" using assms(6) by simp
  obtain r st2 where m: "mirror_tap br (snd (get_master_screen_size br st1)) qx qy = (r, st2)"
    by (cases "mirror_tap br (snd (get_master_screen_size br st1)) qx qy")
  show ?thesis
    using assms(1-5) m
    by (cases r) (simp_all add: on_click_def drag_threshold_def Let_def f)
qed

lemma on_click_idle_release:
  assumes "drag_active ls \<longrightarrow> drag_start ls = None"
  shows "on_click br hwnd ls st x y Left False
           = (Inr (running ls), [],
              (if running ls \<and> hwnd \<noteq> None \<and> \<not> is_point_in_window x y hwnd \<and> drag_active ls
               then ls\<lparr>drag_start := None, drag_active := False\<rparr> else ls), st)"
  using assms by (cases hwnd) (auto simp: on_click_def)

lemma on_click_outside:
  assumes "\<not> is_point_in_window x y hwnd"
  shows "on_click br hwnd ls st x y btn pressed
           = (Inr (running ls), [],
              (if running ls \<and> hwnd \<noteq> None \<and> drag_active ls
               then ls\<lparr>drag_start := None, drag_active := False\<rparr> else ls), st)"
  using assms by (cases hwnd) (auto simp: on_click_def)


text \<open>
  C3. When the listener runs and a left press inside the window maps to a point
  \<open>(px, py)\<close>, the press dispatches nothing and starts a drag at that point. When the
  following left release inside the window maps to \<open>(qx, qy)\<close>, the handler makes exactly
  one call: \<^verbatim>\<open>mirror_swipe(px, py, qx, qy, 300)\<close> if \<open>|qx - px| > 10\<close> or \<open>|qy - py| > 10\<close>, and
  \<^verbatim>\<open>mirror_tap(qx, qy)\<close> otherwise; the controller it leaves is the one that call leaves, in
  which the master has been sent the swipe, respectively the tap; the drag state is
  cleared when the call returns and kept when it raises. A left release with no drag in
  progress, and any click outside the window, leave the controller as it was (nothing is
  sent), raise nothing and arm no drag: the handler returns whether the listener is
  running, and the only change of the drag state is that a click outside the window
  cancels a drag in progress.
\<close>

theorem press_release_classified:
  "(running ls \<and> is_point_in_window x1 y1 (Some s1)
      \<and> fst (convert_to_phone_coords br st x1 y1 s1) = Some (px, py)
      \<and> is_point_in_window x2 y2 (Some s2)
      \<and> fst (convert_to_phone_coords br
                (controller_of (on_click br (Some s1) ls st x1 y1 Left True)) x2 y2 s2) = Some (qx, qy)
    \<longrightarrow>
      (let P = on_click br (Some s1) ls st x1 y1 Left True;
           c = snd (convert_to_phone_coords br (controller_of P) x2 y2 s2);
           R = on_click br (Some s2) (listener_of P) (controller_of P) x2 y2 Left False
       in P = (Inr True, [], ls\<lparr>drag_start := Some (px, py), drag_active := True\<rparr>,
               snd (get_master_screen_size br (snd (convert_to_phone_coords br st x1 y1 s1))))
          \<and> (\<bar>qx - px\<bar> > 10 \<or> \<bar>qy - py\<bar> > 10 \<longrightarrow>
                R = (case fst (mirror_swipe br c px py qx qy 300) of
                       Inl e \<Rightarrow> (Inl e, [Drag px py qx qy 300], listener_of P,
                                 snd (mirror_swipe br c px py qx qy 300))
                     | Inr u \<Rightarrow> (Inr True, [Drag px py qx qy 300],
                                 ls\<lparr>drag_start := None, drag_active := False\<rparr>,
                                 snd (mirror_swipe br c px py qx qy 300)))
                \<and> (\<exists>post. sent (controller_of R)
                             = sent (snd (get_master_screen_size br c))
                                 @ (master_device st, InputSwipe px py qx qy 300) # post))
          \<and> (\<not> (\<bar>qx - px\<bar> > 10 \<or> \<bar>qy - py\<bar> > 10) \<longrightarrow>
                R = (case fst (mirror_tap br (snd (get_master_screen_size br c)) qx qy) of
                       Inl e \<Rightarrow> (Inl e, [Tap qx qy], listener_of P,
                                 snd (mirror_tap br (snd (get_master_screen_size br c)) qx qy))
                     | Inr results \<Rightarrow> (Inr True, [Tap qx qy],
                                 ls\<lparr>drag_start := None, drag_active := False\<rparr>,
                                 snd (mirror_tap br (snd (get_master_screen_size br c)) qx qy)))
                \<and> (\<exists>post. sent (controller_of R)
                             = sent (snd (get_master_screen_size br (snd (get_master_screen_size br c))))
                                 @ (master_device st, InputTap qx qy) # post))))
   \<and> ((drag_active ls \<longrightarrow> drag_start ls = None) \<longrightarrow>
        on_click br hwnd ls st x y Left False
          = (Inr (running ls), [],
             (if running ls \<and> hwnd \<noteq> None \<and> \<not> is_point_in_window x y hwnd \<and> drag_active ls
              then ls\<lparr>drag_start := None, drag_active := False\<rparr> else ls), st))
   \<and> (\<not> is_point_in_window x y hwnd \<longrightarrow>
        on_click br hwnd ls st x y btn pressed
          = (Inr (running ls), [],
             (if running ls \<and> hwnd \<noteq> None \<and> drag_active ls
              then ls\<lparr>drag_start := None, drag_active := False\<rparr> else ls), st))"
proof (intro conjI impI)
  assume a: "running ls \<and> is_point_in_window x1 y1 (Some s1)
      \<and> fst (convert_to_phone_coords br st x1 y1 s1) = Some (px, py)
      \<and> is_point_in_window x2 y2 (Some s2)
      \<and> fst (convert_to_phone_coords br
                (controller_of (on_click br (Some s1) ls st x1 y1 Left True)) x2 y2 s2) = Some (qx, qy)"
  define P where "P = on_click br (Some s1) ls st x1 y1 Left True"
  define c where "c = snd (convert_to_phone_coords br (controller_of P) x2 y2 s2)"
  define R where "R = on_click br (Some s2) (listener_of P) (controller_of P) x2 y2 Left False"
  let ?ls1 = "ls\<lparr>drag_start := Some (px, py), drag_active := True\<rparr>"
  let ?st1 = "snd (convert_to_phone_coords br st x1 y1 s1)"
  have c1: "convert_to_phone_coords br st x1 y1 s1 = (Some (px, py), ?st1)"
    using a by (metis prod.collapse)
  have Pv: "P = (Inr True, [], ?ls1, snd (get_master_screen_size br ?st1))"
    unfolding P_def using a c1 on_click_press [of ls x1 y1 s1 br st "(px, py)" ?st1] by simp
  have lp: "listener_of P = ?ls1" and cp: "controller_of P = snd (get_master_screen_size br ?st1)"
    using Pv by (simp_all add: listener_of_def controller_of_def)
  have c2: "convert_to_phone_coords br (controller_of P) x2 y2 s2 = (Some (qx, qy), c)"
    using a unfolding P_def [symmetric] c_def by (metis prod.collapse)
  have run1: "running (listener_of P)" "drag_active (listener_of P)"
             "drag_start (listener_of P) = Some (px, py)"
    using a lp by simp_all
  have in2: "is_point_in_window x2 y2 (Some s2)" using a by simp
  have k1: "keeps st ?st1" by (rule convert_to_phone_coords_keeps)
  have k2: "keeps st (controller_of P)"
    unfolding cp using keeps_trans [OF k1 get_master_screen_size_keeps] .
  have k3: "keeps st c"
    unfolding c_def using keeps_trans [OF k2 convert_to_phone_coords_keeps] .
  have md: "master_device c = master_device st" using k3 by (simp add: keeps_def)
  have md2: "master_device (snd (get_master_screen_size br c)) = master_device st"
    using keeps_trans [OF k3 get_master_screen_size_keeps] by (simp add: keeps_def)
  have cl: "(listener_of P)\<lparr>drag_start := None, drag_active := False\<rparr>
              = ls\<lparr>drag_start := None, drag_active := False\<rparr>"
    using lp by simp
  have drag: "R = (case fst (mirror_swipe br c px py qx qy 300) of
                       Inl e \<Rightarrow> (Inl e, [Drag px py qx qy 300], listener_of P,
                                 snd (mirror_swipe br c px py qx qy 300))
                     | Inr u \<Rightarrow> (Inr True, [Drag px py qx qy 300],
                                 ls\<lparr>drag_start := None, drag_active := False\<rparr>,
                                 snd (mirror_swipe br c px py qx qy 300)))
                \<and> (\<exists>post. sent (controller_of R)
                             = sent (snd (get_master_screen_size br c))
                                 @ (master_device st, InputSwipe px py qx qy 300) # post)"
    if d: "\<bar>qx - px\<bar> > 10 \<or> \<bar>qy - py\<bar> > 10"
  proof -
    have Rv: "R = (case fst (mirror_swipe br c px py qx qy 300) of
                       Inl e \<Rightarrow> (Inl e, [Drag px py qx qy 300], listener_of P,
                                 snd (mirror_swipe br c px py qx qy 300))
                     | Inr u \<Rightarrow> (Inr True, [Drag px py qx qy 300],
                                 ls\<lparr>drag_start := None, drag_active := False\<rparr>,
                                 snd (mirror_swipe br c px py qx qy 300)))"
      unfolding R_def
      using on_click_release_drag [OF run1(1) in2 run1(2) run1(3) c2 d] cl
      by (simp cong: sum.case_cong)
    have "controller_of R = snd (mirror_swipe br c px py qx qy 300)"
      using Rv by (simp add: controller_of_def split: sum.split)
    then show ?thesis
      using Rv mirror_swipe_master_first [of br c px py qx qy 300] md by simp
  qed
  have tap: "R = (case fst (mirror_tap br (snd (get_master_screen_size br c)) qx qy) of
                       Inl e \<Rightarrow> (Inl e, [Tap qx qy], listener_of P,
                                 snd (mirror_tap br (snd (get_master_screen_size br c)) qx qy))
                     | Inr results \<Rightarrow> (Inr True, [Tap qx qy],
                                 ls\<lparr>drag_start := None, drag_active := False\<rparr>,
                                 snd (mirror_tap br (snd (get_master_screen_size br c)) qx qy)))
                \<and> (\<exists>post. sent (controller_of R)
                             = sent (snd (get_master_screen_size br (snd (get_master_screen_size br c))))
                                 @ (master_device st, InputTap qx qy) # post)"
    if d: "\<not> (\<bar>qx - px\<bar> > 10 \<or> \<bar>qy - py\<bar> > 10)"
  proof -
    have Rv: "R = (case fst (mirror_tap br (snd (get_master_screen_size br c)) qx qy) of
                       Inl e \<Rightarrow> (Inl e, [Tap qx qy], listener_of P,
                                 snd (mirror_tap br (snd (get_master_screen_size br c)) qx qy))
                     | Inr results \<Rightarrow> (Inr True, [Tap qx qy],
                                 ls\<lparr>drag_start := None, drag_active := False\<rparr>,
                                 snd (mirror_tap br (snd (get_master_screen_size br c)) qx qy)))"
      unfolding R_def
      using on_click_release_tap [OF run1(1) in2 run1(2) run1(3) c2 d] cl
      by (simp cong: sum.case_cong)
    have "controller_of R = snd (mirror_tap br (snd (get_master_screen_size br c)) qx qy)"
      using Rv by (simp add: controller_of_def split: sum.split)
    then show ?thesis
      using Rv mirror_tap_master_first [of br "snd (get_master_screen_size br c)" qx qy] md2 by simp
  qed
  have "P = (Inr True, [], ls\<lparr>drag_start := Some (px, py), drag_active := True\<rparr>,
               snd (get_master_screen_size br (snd (convert_to_phone_coords br st x1 y1 s1))))
          \<and> (\<bar>qx - px\<bar> > 10 \<or> \<bar>qy - py\<bar> > 10 \<longrightarrow>
                R = (case fst (mirror_swipe br c px py qx qy 300) of
                       Inl e \<Rightarrow> (Inl e, [Drag px py qx qy 300], listener_of P,
                                 snd (mirror_swipe br c px py qx qy 300))
                     | Inr u \<Rightarrow> (Inr True, [Drag px py qx qy 300],
                                 ls\<lparr>drag_start := None, drag_active := False\<rparr>,
                                 snd (mirror_swipe br c px py qx qy 300)))
                \<and> (\<exists>post. sent (controller_of R)
                             = sent (snd (get_master_screen_size br c))
                                 @ (master_device st, InputSwipe px py qx qy 300) # post))
          \<and> (\<not> (\<bar>qx - px\<bar> > 10 \<or> \<bar>qy - py\<bar> > 10) \<longrightarrow>
                R = (case fst (mirror_tap br (snd (get_master_screen_size br c)) qx qy) of
                       Inl e \<Rightarrow> (Inl e, [Tap qx qy], listener_of P,
                                 snd (mirror_tap br (snd (get_master_screen_size br c)) qx qy))
                     | Inr results \<Rightarrow> (Inr True, [Tap qx qy],
                                 ls\<lparr>drag_start := None, drag_active := False\<rparr>,
                                 snd (mirror_tap br (snd (get_master_screen_size br c)) qx qy)))
                \<and> (\<exists>post. sent (controller_of R)
                             = sent (snd (get_master_screen_size br (snd (get_master_screen_size br c))))
                                 @ (master_device st, InputTap qx qy) # post))"
    using Pv drag tap by blast
  then show "let P = on_click br (Some s1) ls st x1 y1 Left True;
           c = snd (convert_to_phone_coords br (controller_of P) x2 y2 s2);
           R = on_click br (Some s2) (listener_of P) (controller_of P) x2 y2 Left False
       in P = (Inr True, [], ls\<lparr>drag_start := Some (px, py), drag_active := True\<rparr>,
               snd (get_master_screen_size br (snd (convert_to_phone_coords br st x1 y1 s1))))
          \<and> (\<bar>qx - px\<bar> > 10 \<or> \<bar>qy - py\<bar> > 10 \<longrightarrow>
                R = (case fst (mirror_swipe br c px py qx qy 300) of
                       Inl e \<Rightarrow> (Inl e, [Drag px py qx qy 300], listener_of P,
                                 snd (mirror_swipe br c px py qx qy 300))
                     | Inr u \<Rightarrow> (Inr True, [Drag px py qx qy 300],
                                 ls\<lparr>drag_start := None, drag_active := False\<rparr>,
                                 snd (mirror_swipe br c px py qx qy 300)))
                \<and> (\<exists>post. sent (controller_of R)
                             = sent (snd (get_master_screen_size br c))
                                 @ (master_device st, InputSwipe px py qx qy 300) # post))
          \<and> (\<not> (\<bar>qx - px\<bar> > 10 \<or> \<bar>qy - py\<bar> > 10) \<longrightarrow>
                R = (case fst (mirror_tap br (snd (get_master_screen_size br c)) qx qy) of
                       Inl e \<Rightarrow> (Inl e, [Tap qx qy], listener_of P,
                                 snd (mirror_tap br (snd (get_master_screen_size br c)) qx qy))
                     | Inr results \<Rightarrow> (Inr True, [Tap qx qy],
                                 ls\<lparr>drag_start := None, drag_active := False\<rparr>,
                                 snd (mirror_tap br (snd (get_master_screen_size br c)) qx qy)))
                \<and> (\<exists>post. sent (controller_of R)
                             = sent (snd (get_master_screen_size br (snd (get_master_screen_size br c))))
                                 @ (master_device st, InputTap qx qy) # post))"
    unfolding Let_def R_def c_def P_def .
next
  assume "drag_active ls \<longrightarrow> drag_start ls = None"
  then show "on_click br hwnd ls st x y Left False
          = (Inr (running ls), [],
             (if running ls \<and> hwnd \<noteq> None \<and> \<not> is_point_in_window x y hwnd \<and> drag_active ls
              then ls\<lparr>drag_start := None, drag_active := False\<rparr> else ls), st)"
    by (rule on_click_idle_release)
next
  assume "\<not> is_point_in_window x y hwnd"
  then show "on_click br hwnd ls st x y btn pressed
          = (Inr (running ls), [],
             (if running ls \<and> hwnd \<noteq> None \<and> drag_active ls
              then ls\<lparr>drag_start := None, drag_active := False\<rparr> else ls), st)"
    by (rule on_click_outside)
qed


theorem press_release_classified_witness:
  "running idle \<and> is_point_in_window 50 50 (Some mirror_window)
   \<and> fst (convert_to_phone_coords phones two_phones 50 50 mirror_window) = Some (100, 100)
   \<and> is_point_in_window 250 250 (Some mirror_window)
   \<and> fst (convert_to_phone_coords phones
             (controller_of (on_click phones (Some mirror_window) idle two_phones 50 50 Left True))
             250 250 mirror_window) = Some (500, 500)
   \<and> emitted (on_click phones (Some mirror_window)
                (listener_of (on_click phones (Some mirror_window) idle two_phones 50 50 Left True))
                (controller_of (on_click phones (Some mirror_window) idle two_phones 50 50 Left True))
                250 250 Left False)
        = [Drag 100 100 500 500 300]
   \<and> sent (controller_of (on_click phones (Some mirror_window)
                (listener_of (on_click phones (Some mirror_window) idle two_phones 50 50 Left True))
                (controller_of (on_click phones (Some mirror_window) idle two_phones 50 50 Left True))
                250 250 Left False))
        = [(''M'', WmSize), (''S1'', WmSize), (''M'', InputSwipe 100 100 500 500 300),
           (''S1'', InputSwipe 66 66 333 333 300)]"
proof -
  define P where "P = on_click phones (Some mirror_window) idle two_phones 50 50 Left True"
  define c where "c = snd (convert_to_phone_coords phones (controller_of P) 250 250 mirror_window)"
  define R where "R = on_click phones (Some mirror_window) (listener_of P) (controller_of P)
                        250 250 Left False"
  have h1: "running idle" by code_simp
  have h2: "is_point_in_window 50 50 (Some mirror_window)" by code_simp
  have h3: "fst (convert_to_phone_coords phones two_phones 50 50 mirror_window) = Some (100, 100)"
    by code_simp
  have h4: "is_point_in_window 250 250 (Some mirror_window)" by code_simp
  have h5: "fst (convert_to_phone_coords phones (controller_of P) 250 250 mirror_window)
              = Some (500, 500)"
    unfolding P_def by code_simp
  have sw: "fst (mirror_swipe phones c 100 100 500 500 300) = Inr ()"
    unfolding c_def P_def by code_simp
  have sn: "sent (snd (mirror_swipe phones c 100 100 500 500 300))
              = [(''M'', WmSize), (''S1'', WmSize), (''M'', InputSwipe 100 100 500 500 300),
                 (''S1'', InputSwipe 66 66 333 333 300)]"
    unfolding c_def P_def by code_simp
  have pre: "running idle \<and> is_point_in_window 50 50 (Some mirror_window)
      \<and> fst (convert_to_phone_coords phones two_phones 50 50 mirror_window) = Some (100, 100)
      \<and> is_point_in_window 250 250 (Some mirror_window)
      \<and> fst (convert_to_phone_coords phones
                (controller_of (on_click phones (Some mirror_window) idle two_phones 50 50 Left True))
                250 250 mirror_window) = Some (500, 500)"
    using h1 h2 h3 h4 h5 unfolding P_def by simp
  have d: "\<bar>500 - 100\<bar> > (10::int) \<or> \<bar>500 - 100\<bar> > (10::int)" by simp
  note T = press_release_classified
             [where ls = idle and br = phones and st = two_phones and ?s1.0 = mirror_window
                and ?s2.0 = mirror_window and ?x1.0 = 50 and ?y1.0 = 50 and ?x2.0 = 250 and ?y2.0 = 250
                and px = 100 and py = 100 and qx = 500 and qy = 500,
              THEN conjunct1, rule_format, OF pre,
              unfolded Let_def P_def [symmetric] c_def [symmetric] R_def [symmetric]]
  have Rv: "R = (case fst (mirror_swipe phones c 100 100 500 500 300) of
                   Inl e \<Rightarrow> (Inl e, [Drag 100 100 500 500 300], listener_of P,
                             snd (mirror_swipe phones c 100 100 500 500 300))
                 | Inr u \<Rightarrow> (Inr True, [Drag 100 100 500 500 300],
                             idle\<lparr>drag_start := None, drag_active := False\<rparr>,
                             snd (mirror_swipe phones c 100 100 500 500 300)))"
    using T d by blast
  have e: "emitted R = [Drag 100 100 500 500 300]"
    using Rv sw by (simp add: emitted_def)
  have s: "sent (controller_of R)
        = [(''M'', WmSize), (''S1'', WmSize), (''M'', InputSwipe 100 100 500 500 300),
           (''S1'', InputSwipe 66 66 333 333 300)]"
    using Rv sw sn by (simp add: controller_of_def)
  show ?thesis
    using h1 h2 h3 h4 h5 e s unfolding R_def P_def by simp
qed

subsection \<open>Window-to-device mapping with letterboxing\<close>

text \<open>
  C2. The claim: when the aspect ratios differ by more than 0.01, the mapping returns no
  point for every point in the letterbox bars, and no command is forwarded for such
  points. The code does not keep to it at the far edge. For a phone of 1080x2400 in a
  client area of 800x600 the visible width is \<open>int(600 * 0.45) = 270\<close> and the left bar is
  265 wide, so the device pixels are in the columns 265 to 534. The test for the left bar,
  \<^verbatim>\<open>rel_x < letterbox_x\<close>, drops column 264; the test for the right bar,
  \<^verbatim>\<open>rel_x > (letterbox_x + visible_width)\<close>, accepts column 535, the first column of the
  right bar: the click there is mapped to \<open>(364, 405)\<close>, and a press and release on it
  sends a tap to the master and to the slave.
\<close>

theorem letterbox_edge_forwarded:
  "py_int (fmul (to_float 600) (true_div 1080 2400)) = 270
   \<and> (800 - 270) div 2 = (265 :: int)
   \<and> scale_to_phone \<lparr>width = 1080, height = 2400, is_override = Some False\<rparr> 800 600 264 300 = None
   \<and> scale_to_phone \<lparr>width = 1080, height = 2400, is_override = Some False\<rparr> 800 600 535 300
        = Some (364, 405)
   \<and> scale_to_phone \<lparr>width = 1080, height = 2400, is_override = Some False\<rparr> 800 600 536 300 = None
   \<and> fst (convert_to_phone_coords phones two_phones 535 300 wide_window) = Some (364, 405)
   \<and> sent (controller_of
         (on_click phones (Some wide_window)
            (listener_of (on_click phones (Some wide_window) idle two_phones 535 300 Left True))
            (controller_of (on_click phones (Some wide_window) idle two_phones 535 300 Left True))
            535 300 Left False))
       = [(''M'', WmSize), (''S1'', WmSize), (''M'', InputTap 364 405), (''S1'', InputTap 242 270)]"
  by code_simp

subsection \<open>One command on all devices\<close>

lemma execute_command_device:
  "device_id (fst (execute_command br sn dev cmd)) = dev"
  by (simp add: execute_command_def run_def split: run_outcome.split)

lemma execute_command_sent:
  "snd (execute_command br sn dev cmd) = sn @ [(dev, cmd)]"
  by (simp add: execute_command_def run_def split: run_outcome.split)

lemma execute_each_devices:
  "map device_id (fst (execute_each br cmd devs sn rs)) = map device_id rs @ devs"
proof (induction devs arbitrary: sn rs)
  case Nil
  show ?case by simp
next
  case (Cons d ds)
  obtain r sn1 where e: "execute_command br sn d cmd = (r, sn1)" by (cases "execute_command br sn d cmd")
  have "device_id r = d" using execute_command_device [of br sn d cmd] e by simp
  then show ?case using Cons.IH [of sn1 "rs @ [r]"] e by simp
qed

lemma execute_each_sent:
  "snd (execute_each br cmd devs sn rs) = sn @ map (\<lambda>d. (d, cmd)) devs"
proof (induction devs arbitrary: sn rs)
  case Nil
  show ?case by simp
next
  case (Cons d ds)
  obtain r sn1 where e: "execute_command br sn d cmd = (r, sn1)" by (cases "execute_command br sn d cmd")
  have "sn1 = sn @ [(d, cmd)]" using execute_command_sent [of br sn d cmd] e by simp
  then show ?case using Cons.IH [of sn1 "rs @ [r]"] e by simp
qed

lemma mset_collect:
  assumes "mset completion = mset [0..<length futures]"
  shows "mset (map (\<lambda>k. futures ! k) completion) = mset futures"
proof -
  have "mset (map (\<lambda>k. futures ! k) completion) = image_mset (\<lambda>k. futures ! k) (mset completion)"
    by simp
  also have "\<dots> = image_mset (\<lambda>k. futures ! k) (mset [0..<length futures])"
    using assms by simp
  also have "\<dots> = mset (map (\<lambda>k. futures ! k) [0..<length futures])"
    by simp
  also have "\<dots> = mset futures"
    by (simp add: map_nth)
  finally show ?thesis .
qed

text \<open>
  C10. With an empty device list \<^verbatim>\<open>execute_all\<close> returns the empty list and calls no
  endpoint, in either mode. With a non-empty list it returns exactly one result per
  device: in sequential mode in the order of the list, in parallel mode in the order in
  which the futures complete (any permutation of the submissions); one call goes to each
  device.
\<close>

theorem execute_all_one_result_per_device:
  "execute_all br sn [] command parallel completion = ([], sn)
   \<and> (devices \<noteq> [] \<longrightarrow> (parallel \<longrightarrow> mset completion = mset [0..<length devices]) \<longrightarrow>
        length (fst (execute_all br sn devices command parallel completion)) = length devices
        \<and> mset (map device_id (fst (execute_all br sn devices command parallel completion))) = mset devices
        \<and> (\<not> parallel \<longrightarrow>
              map device_id (fst (execute_all br sn devices command parallel completion)) = devices)
        \<and> snd (execute_all br sn devices command parallel completion)
              = sn @ map (\<lambda>d. (d, command)) devices)"
proof (intro conjI impI)
  show "execute_all br sn [] command parallel completion = ([], sn)"
    by (simp add: execute_all_def)
next
  assume ne: "devices \<noteq> []" and perm: "parallel \<longrightarrow> mset completion = mset [0..<length devices]"
  let ?futures = "fst (execute_each br command devices sn [])"
  have devs: "map device_id ?futures = devices"
    using execute_each_devices [of br command devices sn "[]"] by simp
  then have len: "length ?futures = length devices"
    by (metis length_map)
  have res: "fst (execute_all br sn devices command parallel completion)
               = (if parallel then map (\<lambda>k. ?futures ! k) completion else ?futures)"
    using ne by (simp add: execute_all_def case_prod_beta)
  have ms: "mset (fst (execute_all br sn devices command parallel completion)) = mset ?futures"
    using res perm len mset_collect [of completion ?futures] by simp
  show "length (fst (execute_all br sn devices command parallel completion)) = length devices"
    using ms len by (metis size_mset)
  show "mset (map device_id (fst (execute_all br sn devices command parallel completion))) = mset devices"
    using ms devs by (metis mset_map)
  show "map device_id (fst (execute_all br sn devices command parallel completion)) = devices"
    if "\<not> parallel" using that res devs by simp
  show "snd (execute_all br sn devices command parallel completion) = sn @ map (\<lambda>d. (d, command)) devices"
    using ne execute_each_sent [of br command devices sn "[]"]
    by (simp add: execute_all_def case_prod_beta)
qed

theorem execute_all_one_result_per_device_witness:
  "[''A'', ''B'', ''C''] \<noteq> [] \<and> mset [2, 0, 1] = mset [0..<length [''A'', ''B'', ''C'']]
   \<and> map device_id (fst (execute_all phones_timeout [] [''A'', ''B'', ''C''] (InputTap 5 7) True [2, 0, 1]))
        = [''C'', ''A'', ''B'']
   \<and> length (fst (execute_all phones_timeout [] [''A'', ''B'', ''C''] (InputTap 5 7) True [2, 0, 1])) = 3
   \<and> snd (execute_all phones_timeout [] [''A'', ''B'', ''C''] (InputTap 5 7) True [2, 0, 1])
        = [(''A'', InputTap 5 7), (''B'', InputTap 5 7), (''C'', InputTap 5 7)]"
proof -
  have p: "mset [2, 0, 1] = mset [0..<length [''A'', ''B'', ''C'']]" by code_simp
  have e: "map device_id (fst (execute_all phones_timeout [] [''A'', ''B'', ''C''] (InputTap 5 7) True [2, 0, 1]))
        = [''C'', ''A'', ''B'']" by code_simp
  show ?thesis
    using execute_all_one_result_per_device
            [of phones_timeout "[]" "InputTap 5 7" True "[2, 0, 1]" "[''A'', ''B'', ''C'']"] p e
    by simp
qed

end
